theory Spec2Isabelle
  imports Main
begin

section \<open>Errors, requests and responses\<close>

text \<open>A Go function can return, or panic.\<close>

datatype 'a outcome = Returned 'a | Panicked

text \<open>
  \<^verbatim>\<open>LeegoError\<close> is the interface \<^verbatim>\<open>{ Error() string }\<close>. The default error handler
  distinguishes one concrete implementation, \<^verbatim>\<open>*HTTPError\<close> (a pointer to a status code
  and a message), from every other one. The pointer held in the interface can itself be
  nil: such a value is not the nil interface (it passes the test \<^verbatim>\<open>err != nil\<close> of line
  235 and the type assertion of line 252), and reading a field through it panics. That is
  \<open>NilHTTPError\<close>. Another implementation is represented by what its \<^verbatim>\<open>Error()\<close>
  does: return a message (\<open>OtherError\<close>), or panic (\<open>PanickingError\<close>). A Go value of
  interface type may be nil: a handler result is a \<open>LeegoError option\<close>, \<open>None\<close> for
  nil.

  \<^verbatim>\<open>Error\<close> is the method \<^verbatim>\<open>Error()\<close>; for an \<^verbatim>\<open>*HTTPError\<close> it is lines 203 to 205,
  \<^verbatim>\<open>return e.Message\<close>, which dereferences the pointer.
\<close>

datatype LeegoError = HTTPError int string | NilHTTPError | OtherError string | PanickingError

fun Error :: "LeegoError \<Rightarrow> string outcome" where
  "Error (HTTPError code message) = Returned message"
| "Error NilHTTPError = Panicked"
| "Error (OtherError message) = Returned message"
| "Error PanickingError = Panicked"

text \<open>
  Modelled from the spec: the request and the response of the \<^verbatim>\<open>engine\<close> package, which
  is not under src/. A request has a method, a path, a query string, headers and a URI that
  can be set (\<^verbatim>\<open>Method()\<close>, \<^verbatim>\<open>URL().Path()\<close>, \<^verbatim>\<open>URL().QueryString()\<close>,
  \<^verbatim>\<open>Header().Get\<close>, \<^verbatim>\<open>SetURI\<close>, \<^verbatim>\<open>URL().SetPath\<close> in the code under src/); a
  response has headers, a status, the body written so far and a committed flag.
\<close>

record Request =
  reqMethod :: string
  urlPath :: string
  urlQueryString :: string
  reqURI :: string
  reqHeader :: "string \<rightharpoonup> string"

record Response =
  resHeader :: "string \<rightharpoonup> string"
  Status :: int
  Body :: string
  Committed :: bool

section \<open>Contexts, handlers and middleware\<close>

text \<open>A value of Go's empty interface, as held in the data bag of a context.\<close>

typedecl iface

text \<open>
  The state of an \<^verbatim>\<open>echoContext\<close> that a handler reaches through the \<^verbatim>\<open>Context\<close>
  interface: the fields that the struct literal of \<^verbatim>\<open>NewContext\<close> (lines 223 to 231)
  sets, and the language tag that \<^verbatim>\<open>SetLang\<close> stores. The request and response are
  interface values and can be nil (\<^verbatim>\<open>NewContext(nil, nil)\<close> in the pool's constructor):
  \<open>None\<close>.
\<close>

record Context =
  request :: "Request option"
  response :: "Response option"
  pvalues :: "string list"
  data :: "string \<rightharpoonup> iface"
  lang :: string

text \<open>
  A call is modelled as a function from the state
  it can reach to its outcome and the state it leaves behind. The state is the context the
  call is given (the \<^verbatim>\<open>Context\<close> argument is a pointer, so the callee's writes are seen by the
  caller) together with a component \<open>'g\<close> for whatever else the closures of the
  application capture (counters, logs, globals). One context is in use during a request, and
  every call of the chain is given that one. The framework instance itself is not part of
  the state: handlers and middleware are taken not to register routes or middleware while
  a request is served.
\<close>

type_synonym 'g World = "Context \<times> 'g"

type_synonym ('a, 'g) prog = "'g World \<Rightarrow> 'a outcome \<times> 'g World"

definition ret :: "'a \<Rightarrow> ('a, 'g) prog" where
  "ret x = (\<lambda>w. (Returned x, w))"

definition andThen :: "('a, 'g) prog \<Rightarrow> ('a \<Rightarrow> ('b, 'g) prog) \<Rightarrow> ('b, 'g) prog" where
  "andThen m f = (\<lambda>w. case m w of
       (Returned x, w') \<Rightarrow> f x w'
     | (Panicked, w') \<Rightarrow> (Panicked, w'))"

text \<open>
  \<^verbatim>\<open>HandlerFunc func(Context) LeegoError\<close> and
  \<^verbatim>\<open>MiddlewareFunc func(HandlerFunc) HandlerFunc\<close>. Wrapping a handler is itself a call:
  it can have effects of its own, before the handler it returns is ever run.
\<close>

type_synonym 'g HandlerFunc = "(LeegoError option, 'g) prog"

type_synonym 'g MiddlewareFunc = "'g HandlerFunc \<Rightarrow> ('g HandlerFunc, 'g) prog"

text \<open>
  \<^verbatim>\<open>WrapMiddleware\<close> (leego.go, lines 521 to 530). Building the closures has no effect;
  the handler returned runs \<open>h\<close>, returns its error if there is one, and otherwise
  calls \<open>next\<close> on the same context.
\<close>

definition WrapMiddleware :: "'g HandlerFunc \<Rightarrow> 'g MiddlewareFunc" where
  "WrapMiddleware h = (\<lambda>next. ret (\<lambda>c. case h c of
       (Returned (Some err), c') \<Rightarrow> (Returned (Some err), c')
     | (Returned None, c') \<Rightarrow> next c'
     | (Panicked, c') \<Rightarrow> (Panicked, c')))"

text \<open>
  The loop that \<^verbatim>\<open>ServeHTTP\<close> writes out twice (lines 458 to 460 and 465 to 467), over
  the middleware of the framework instance:
  \<^verbatim>\<open>for i := len(middleware) - 1; i >= 0; i-- { h = middleware[i](h) }\<close>.
  The counter of \<open>chainFrom\<close> is \<open>i + 1\<close>, so that it is \<open>0\<close> when the loop ends
  at \<open>i = -1\<close>. (\<^verbatim>\<open>add\<close> has the same loop over the slice it is given: \<open>chainFromSlice\<close>
  below.)
\<close>

fun chainFrom :: "'g MiddlewareFunc list \<Rightarrow> nat \<Rightarrow> 'g HandlerFunc \<Rightarrow> ('g HandlerFunc, 'g) prog" where
  "chainFrom middleware 0 h = ret h"
| "chainFrom middleware (Suc i) h = andThen ((middleware ! i) h) (chainFrom middleware i)"

definition chain :: "'g MiddlewareFunc list \<Rightarrow> 'g HandlerFunc \<Rightarrow> ('g HandlerFunc, 'g) prog" where
  "chain middleware h = chainFrom middleware (length middleware) h"

text \<open>\<^verbatim>\<open>return h(c)\<close> after such a loop: build the chain, then run what it built.\<close>

definition runChain :: "'g MiddlewareFunc list \<Rightarrow> 'g HandlerFunc \<Rightarrow> 'g HandlerFunc" where
  "runChain middleware h = andThen (chain middleware h) (\<lambda>h'. h')"

section \<open>Status texts and the framework's errors\<close>

text \<open>
  \<^verbatim>\<open>http.StatusText\<close> of Go's standard library, at the codes leego.go uses (lines 171
  to 175 and 250). The library answers the empty string for a code it does not know;
  its other entries are left out.
\<close>

definition StatusText :: "int \<Rightarrow> string" where
  "StatusText code =
     (if code = 401 then ''Unauthorized''
      else if code = 404 then ''Not Found''
      else if code = 405 then ''Method Not Allowed''
      else if code = 413 then ''Request Entity Too Large''
      else if code = 415 then ''Unsupported Media Type''
      else if code = 500 then ''Internal Server Error''
      else [])"

text \<open>\<^verbatim>\<open>NewHTTPError(code int, msg ...string)\<close>, lines 193 to 200.\<close>

definition NewHTTPError :: "int \<Rightarrow> string list \<Rightarrow> LeegoError" where
  "NewHTTPError code msg =
     (case msg of [] \<Rightarrow> HTTPError code (StatusText code) | m # _ \<Rightarrow> HTTPError code m)"

definition ErrNotFound :: LeegoError where
  "ErrNotFound = NewHTTPError 404 []"

definition ErrMethodNotAllowed :: LeegoError where
  "ErrMethodNotAllowed = NewHTTPError 405 []"

definition NotFoundHandler :: "'g HandlerFunc" where
  "NotFoundHandler = (\<lambda>c. (Returned (Some ErrNotFound), c))"

definition MethodNotAllowedHandler :: "'g HandlerFunc" where
  "MethodNotAllowedHandler = (\<lambda>c. (Returned (Some ErrMethodNotAllowed), c))"

definition HEAD :: string where
  "HEAD = ''HEAD''"

section \<open>The framework instance\<close>

text \<open>\<^verbatim>\<open>Route\<close>, lines 39 to 43. \<open>Handler\<close> is the name \<^verbatim>\<open>handlerName\<close> found.\<close>

record Route =
  Method :: string
  Path :: string
  Handler :: string

text \<open>
  Modelled from the spec: the router (router.go is not under src/). \<^verbatim>\<open>Router.Add\<close>
  registers a handler for a method and a path pattern, and a later registration of the same
  method and path replaces the earlier one; \<open>handlers\<close> is that table. \<open>routes\<close> is
  the Go map \<^verbatim>\<open>routes\<close> that \<^verbatim>\<open>add\<close> writes at the key \<^verbatim>\<open>method+path\<close>. What
  \<^verbatim>\<open>Router.Add\<close> does to \<^verbatim>\<open>maxParam\<close> through its last argument is not modelled.
\<close>

record 'g Router =
  handlers :: "string \<times> string \<rightharpoonup> 'g HandlerFunc"
  routes :: "string \<rightharpoonup> Route"

definition routerAdd :: "string \<Rightarrow> string \<Rightarrow> 'g HandlerFunc \<Rightarrow> 'g Router \<Rightarrow> 'g Router" where
  "routerAdd method path h r = r\<lparr>handlers := (handlers r)((method, path) \<mapsto> h)\<rparr>"

text \<open>
  \<^verbatim>\<open>echoContext\<close>: the state handlers reach, and the \<^verbatim>\<open>handler\<close> field. (A handler is
  a function of the state it reaches, so that state cannot hold the handler itself; the
  framework code under src/ reads the field only right after \<^verbatim>\<open>Find\<close> wrote it.) The
  fields \<^verbatim>\<open>context\<close> and \<^verbatim>\<open>leego\<close> are not used by the code modelled here.
\<close>

record 'g echoContext =
  state :: Context
  handler :: "'g HandlerFunc"

text \<open>
  \<^verbatim>\<open>Leego\<close>, lines 22 to 36, without the fields no modelled function touches
  (\<^verbatim>\<open>wg\<close>, \<^verbatim>\<open>notFoundHandler\<close>, \<^verbatim>\<open>binder\<close>, \<^verbatim>\<open>renderer\<close>, \<^verbatim>\<open>logger\<close>).
  \<^verbatim>\<open>maxParam\<close> is a count, \<open>0\<close> after \<^verbatim>\<open>new(int)\<close>. The \<^verbatim>\<open>sync.Pool\<close> is the list of
  the contexts put back and not yet taken out again.
\<close>

record 'g Leego =
  premiddleware :: "'g MiddlewareFunc list"
  middleware :: "'g MiddlewareFunc list"
  maxParam :: nat
  httpErrorHandler :: "LeegoError \<Rightarrow> (unit, 'g) prog"
  httpSuccessHandler :: "(unit, 'g) prog"
  pool :: "'g echoContext list"
  debug :: bool
  router :: "'g Router"

text \<open>\<^verbatim>\<open>NewContext\<close>, lines 222 to 232. \<^verbatim>\<open>make([]string, n)\<close> is \<open>n\<close> empty strings.\<close>

definition NewContext :: "'g Leego \<Rightarrow> Request option \<Rightarrow> Response option \<Rightarrow> 'g echoContext" where
  "NewContext e req res =
     \<lparr>state = \<lparr>request = req, response = res, pvalues = replicate (maxParam e) [],
                data = Map.empty, lang = []\<rparr>,
      handler = NotFoundHandler\<rparr>"

section \<open>Methods of the context and of the response\<close>

text \<open>
  Modelled from the spec: the writers of the response and the context methods built on
  them (context.go and the engine package are not under src/). The response has a
  committed flag that prevents a second write of the status; \<^verbatim>\<open>NoContent\<close> writes a
  status and no body; \<^verbatim>\<open>String\<close> writes a status and a body. Both return a nil error.
  Calling a method of a nil response panics.
\<close>

definition WriteHeader :: "int \<Rightarrow> Response \<Rightarrow> Response" where
  "WriteHeader code res = (if Committed res then res else res\<lparr>Status := code, Committed := True\<rparr>)"

definition Write :: "string \<Rightarrow> Response \<Rightarrow> Response" where
  "Write b res = res\<lparr>Body := Body res @ b\<rparr>"

definition NoContent :: "int \<Rightarrow> 'g HandlerFunc" where
  "NoContent code = (\<lambda>(c, g). case response c of
       None \<Rightarrow> (Panicked, (c, g))
     | Some res \<Rightarrow> (Returned None, (c\<lparr>response := Some (WriteHeader code res)\<rparr>, g)))"

definition String' :: "int \<Rightarrow> string \<Rightarrow> 'g HandlerFunc" where
  "String' code s = (\<lambda>(c, g). case response c of
       None \<Rightarrow> (Panicked, (c, g))
     | Some res \<Rightarrow> (Returned None, (c\<lparr>response := Some (Write s (WriteHeader code res))\<rparr>, g)))"

text \<open>
  Modelled from the spec: \<^verbatim>\<open>Reset\<close> and \<^verbatim>\<open>SetLang\<close> of the context (context.go is not
  under src/). Reset installs the request and the response, sets the handler back to the
  not-found handler, truncates the parameter values to length zero and clears the data
  bag; the language tag is parsed from the header once per request.
\<close>

definition Reset :: "'g echoContext \<Rightarrow> Request \<Rightarrow> Response \<Rightarrow> 'g echoContext" where
  "Reset c req res =
     \<lparr>state = \<lparr>request = Some req, response = Some res, pvalues = [], data = Map.empty, lang = []\<rparr>,
      handler = NotFoundHandler\<rparr>"

definition SetLang :: "string \<Rightarrow> 'g echoContext \<Rightarrow> 'g echoContext" where
  "SetLang l c = c\<lparr>state := (state c)\<lparr>lang := l\<rparr>\<rparr>"

text \<open>\<^verbatim>\<open>Header().Get(key)\<close>: the empty string when the header is absent.\<close>

definition headerGet :: "(string \<rightharpoonup> string) \<Rightarrow> string \<Rightarrow> string" where
  "headerGet hs key = (case hs key of None \<Rightarrow> [] | Some v \<Rightarrow> v)"

section \<open>The default error handler\<close>

text \<open>
  \<^verbatim>\<open>DefaultHTTPErrorHandler\<close>, lines 249 to 267. The type assertion of line 252 succeeds
  for every \<^verbatim>\<open>*HTTPError\<close>, the nil pointer too, and \<^verbatim>\<open>he.Code\<close> (line 253) then
  panics on the nil pointer. Under the debug flag, line 257 calls \<^verbatim>\<open>err.Error()\<close>, which
  can panic. Both come before the test of line 259. The results of \<^verbatim>\<open>c.NoContent\<close> and
  \<^verbatim>\<open>c.String\<close> are dropped, as the source drops them.
\<close>

definition DefaultHTTPErrorHandler :: "'g Leego \<Rightarrow> LeegoError \<Rightarrow> (unit, 'g) prog" where
  "DefaultHTTPErrorHandler e err = (\<lambda>(c, g).
     let code = 500;
         msg = StatusText code
     in case (case err of
                HTTPError heCode heMessage \<Rightarrow> Returned (heCode, heMessage)
              | NilHTTPError \<Rightarrow> Panicked
              | OtherError _ \<Rightarrow> Returned (code, msg)
              | PanickingError \<Rightarrow> Returned (code, msg)) of
          Panicked \<Rightarrow> (Panicked, (c, g))
        | Returned (code, msg) \<Rightarrow>
            (case (if debug e then Error err else Returned msg) of
               Panicked \<Rightarrow> (Panicked, (c, g))
             | Returned msg \<Rightarrow>
                 (case response c of
                    None \<Rightarrow> (Panicked, (c, g))
                  | Some res \<Rightarrow>
                      if \<not> Committed res then
                        (case request c of
                           None \<Rightarrow> (Panicked, (c, g))
                         | Some req \<Rightarrow>
                             if reqMethod req = HEAD
                             then andThen (NoContent code) (\<lambda>_. ret ()) (c, g)
                             else andThen (String' code msg) (\<lambda>_. ret ()) (c, g))
                      else (Returned (), (c, g)))))"

definition DefaultHTTPSuccessHandler :: "'g Leego \<Rightarrow> (unit, 'g) prog" where
  "DefaultHTTPSuccessHandler e = ret ()"

text \<open>\<^verbatim>\<open>ResponseHandler\<close>, lines 234 to 241.\<close>

definition ResponseHandler :: "'g Leego \<Rightarrow> LeegoError option \<Rightarrow> (unit, 'g) prog" where
  "ResponseHandler e err =
     (case err of Some er \<Rightarrow> httpErrorHandler e er | None \<Rightarrow> httpSuccessHandler e)"

section \<open>Registering a route\<close>

text \<open>
  The parameter \<^verbatim>\<open>middleware ...MiddlewareFunc\<close> of \<^verbatim>\<open>add\<close> is a slice. \<^verbatim>\<open>Add\<close>,
  \<^verbatim>\<open>GET\<close>, \<^verbatim>\<open>Any\<close>, \<^verbatim>\<open>Match\<close> and the others pass theirs on as \<^verbatim>\<open>middleware...\<close>,
  which hands over the same slice and copies nothing; an application that calls
  \<^verbatim>\<open>e.Add(method, path, h, ms...)\<close> therefore shares the array of \<^verbatim>\<open>ms\<close> with the
  closure that \<^verbatim>\<open>add\<close> builds, and a later \<^verbatim>\<open>ms[i] = m\<close> is seen by that closure. The
  length of the slice is fixed when it is passed; its elements live in the state the
  application's code reaches, the component \<open>'g\<close>: \<open>sliceAt s g i\<close> is element
  \<open>i\<close> as it is in the state \<open>g\<close>.

  \<open>fixedSlice\<close> is a slice nobody writes to, such as the one Go builds when the
  middleware are given as separate arguments.
\<close>

record 'g MiddlewareSlice =
  sliceLen :: nat
  sliceAt :: "'g \<Rightarrow> nat \<Rightarrow> 'g MiddlewareFunc"

definition fixedSlice :: "'g MiddlewareFunc list \<Rightarrow> 'g MiddlewareSlice" where
  "fixedSlice ms = \<lparr>sliceLen = length ms, sliceAt = (\<lambda>g i. ms ! i)\<rparr>"

text \<open>
  The loop of lines 423 to 425 over such a slice. \<^verbatim>\<open>middleware[i]\<close> is read when the
  loop reaches \<open>i\<close>, in the state as it then is. The counter is \<open>i + 1\<close>, as in
  \<open>chainFrom\<close>.
\<close>

fun chainFromSlice :: "'g MiddlewareSlice \<Rightarrow> nat \<Rightarrow> 'g HandlerFunc \<Rightarrow> ('g HandlerFunc, 'g) prog" where
  "chainFromSlice s 0 h = ret h"
| "chainFromSlice s (Suc i) h = (\<lambda>(c, g). andThen (sliceAt s g i h) (chainFromSlice s i) (c, g))"

text \<open>Lines 421 to 426: \<^verbatim>\<open>h := handler\<close>, the loop, \<^verbatim>\<open>return h(c)\<close>.\<close>

definition runChainSlice :: "'g MiddlewareSlice \<Rightarrow> 'g HandlerFunc \<Rightarrow> 'g HandlerFunc" where
  "runChainSlice s h = andThen (chainFromSlice s (sliceLen s) h) (\<lambda>h'. h')"

text \<open>
  \<^verbatim>\<open>add\<close>, lines 418 to 435. \<^verbatim>\<open>handlerName\<close> (lines 532 to 538) asks the runtime for
  the name of the function behind a handler; it is a parameter here. The handler given
  to the router is the closure of lines 420 to 427: the loop over the middleware is inside
  it, and it keeps the slice it was given, not a copy of the elements.
\<close>

definition add :: "('g HandlerFunc \<Rightarrow> string) \<Rightarrow> 'g Leego \<Rightarrow> string \<Rightarrow> string \<Rightarrow> 'g HandlerFunc \<Rightarrow>
    'g MiddlewareSlice \<Rightarrow> 'g Leego" where
  "add handlerName e method path handler' middleware' =
     (let name = handlerName handler';
          router1 = routerAdd method path (\<lambda>c. runChainSlice middleware' handler' c) (router e);
          r = \<lparr>Method = method, Path = path, Handler = name\<rparr>
      in e\<lparr>router := router1\<lparr>routes := (routes router1)(method @ path \<mapsto> r)\<rparr>\<rparr>)"

section \<open>Serving a request\<close>

text \<open>
  \<^verbatim>\<open>ServeHTTP\<close>, lines 447 to 474. \<^verbatim>\<open>Router.Find\<close> is not under src/: it is the
  parameter \<open>routerFind\<close>, which is given the method, the path and the context, and answers the
  handler it stored in the context's \<^verbatim>\<open>handler\<close> field together with the context's new
  state. \<^verbatim>\<open>req\<close> is the object the context's request field points to since \<^verbatim>\<open>Reset\<close>.

  \<open>routerClosure\<close> is the closure of lines 453 to 462. It ignores its argument and works
  on the context \<^verbatim>\<open>c\<close> that \<^verbatim>\<open>ServeHTTP\<close> took from the pool, which is the context
  every call of the chain is given.
\<close>

type_synonym 'g finder = "'g Router \<Rightarrow> string \<Rightarrow> string \<Rightarrow> Context \<Rightarrow> 'g HandlerFunc \<times> Context"

definition routerClosure :: "'g finder \<Rightarrow> 'g Leego \<Rightarrow> 'g HandlerFunc" where
  "routerClosure routerFind e = (\<lambda>(c, g). case request c of
       None \<Rightarrow> (Panicked, (c, g))
     | Some req \<Rightarrow>
         (let method = reqMethod req;
              path = urlPath req;
              (h, c') = routerFind (router e) method path c
          in runChain (middleware e) h (c', g)))"

text \<open>
  \<^verbatim>\<open>e.pool.Get()\<close>: a pooled context (any of them; here the one put back last), or a new
  one from \<^verbatim>\<open>e.NewContext(nil, nil)\<close> (line 211) when the pool is empty.
\<close>

definition poolGet :: "'g Leego \<Rightarrow> 'g echoContext \<times> 'g echoContext list" where
  "poolGet e = (case pool e of [] \<Rightarrow> (NewContext e None None, []) | c # cs \<Rightarrow> (c, cs))"

text \<open>Lines 448 to 450: take a context out of the pool, reset it, set its language.\<close>

definition acquire :: "'g Leego \<Rightarrow> Request \<Rightarrow> Response \<Rightarrow> 'g echoContext \<times> 'g echoContext list" where
  "acquire e req res =
     (let (c0, rest) = poolGet e;
          c1 = Reset c0 req res;
          c2 = SetLang (headerGet (reqHeader req) ''Accept-Language'') c1
      in (c2, rest))"

text \<open>
  The result of \<open>ServeHTTP\<close>: how the call ended, the framework instance with its pool,
  and the state the context and the closures' variables were left in. There is no
  \<^verbatim>\<open>defer\<close> and no \<^verbatim>\<open>recover\<close> in the function: a panic leaves it at once, with the
  context taken out of the pool. After a request the pooled context is kept with the
  \<^verbatim>\<open>handler\<close> field \<^verbatim>\<open>Reset\<close> gave it; the next \<^verbatim>\<open>Reset\<close> overwrites the field.
\<close>

definition ServeHTTP :: "'g finder \<Rightarrow> 'g Leego \<Rightarrow> Request \<Rightarrow> Response \<Rightarrow> 'g \<Rightarrow>
    unit outcome \<times> 'g Leego \<times> 'g World" where
  "ServeHTTP routerFind e req res g =
     (let (c, rest) = acquire e req res;
          h = routerClosure routerFind e
      in case andThen (chain (premiddleware e) h)
                (\<lambda>h'. andThen h' (\<lambda>err. ResponseHandler e err)) (state c, g) of
           (Returned _, w) \<Rightarrow> (Returned (), e\<lparr>pool := c\<lparr>state := fst w\<rparr> # rest\<rparr>, w)
         | (Panicked, w) \<Rightarrow> (Panicked, e\<lparr>pool := rest\<rparr>, w))"

section \<open>Reverse URI generation\<close>

text \<open>
  \<^verbatim>\<open>URI\<close>, lines 491 to 513. The inner loop of line 500 moves \<open>i\<close> to the next
  \<open>/\<close> or to the end of the path.
\<close>

function skipName :: "string \<Rightarrow> nat \<Rightarrow> nat" where
  "skipName path i =
     (if i < length path \<and> path ! i \<noteq> CHR ''/'' then skipName path (Suc i) else i)"
  by pat_completeness auto
termination
  by (relation "measure (\<lambda>(path, i). length path - i)") auto

text \<open>
  The loop of lines 498 to 508 over one path, from index \<open>i\<close>, with \<open>n\<close> values used
  and \<open>uri\<close> written so far. A value is the string \<^verbatim>\<open>fmt.Sprintf("%v", params[n])\<close>
  makes of it, which for a Go string is the string itself.
\<close>

function uriLoop :: "string \<Rightarrow> string list \<Rightarrow> nat \<Rightarrow> nat \<Rightarrow> string \<Rightarrow> string" where
  "uriLoop path params i n uri =
     (if i < length path then
        (let (i1, n1, uri1) =
               (if path ! i = CHR '':'' \<and> n < length params
                then (skipName path i, Suc n, uri @ params ! n)
                else (i, n, uri));
             uri2 = (if i1 < length path then uri1 @ [path ! i1] else uri1)
         in uriLoop path params (Suc i1) n1 uri2)
      else uri)"
  by pat_completeness auto
termination
proof (relation "measure (\<lambda>(path, params, i, n, uri). length path - i)")
  show "wf (measure (\<lambda>(path, params, i, n, uri). length path - i))"
    by simp
next
  fix path :: string and params :: "string list" and i n :: nat and uri :: string
    and x :: "nat \<times> nat \<times> string" and i1 :: nat and y :: "nat \<times> string"
    and n1 :: nat and uri1 :: string and uri2 :: string
  assume lt: "i < length path"
    and x: "x = (if path ! i = CHR '':'' \<and> n < length params
                 then (skipName path i, Suc n, uri @ params ! n) else (i, n, uri))"
    and x1: "(i1, y) = x"
  have ge: "i \<le> skipName path j" if "i \<le> j" for j
    using that by (induction path j rule: skipName.induct) (subst skipName.simps, auto)
  have "i \<le> i1"
    using x x1 ge [of i] by (auto split: if_splits)
  then show "((path, params, Suc i1, n1, uri2), (path, params, i, n, uri))
      \<in> measure (\<lambda>(path, params, i, n, uri). length path - i)"
    using lt by auto
qed

text \<open>Both equations call the function they define: they are unfolded by hand.\<close>

declare skipName.simps [simp del] uriLoop.simps [simp del]

text \<open>
  \<^verbatim>\<open>for _, r := range e.router.routes\<close>: Go visits the entries of a map in an order it
  does not specify. \<open>order\<close> is the order of the keys in one such visit; it is an
  iteration order of the map when it lists each key of the map once.
\<close>

definition rangeRoutes :: "(string \<rightharpoonup> Route) \<Rightarrow> string list \<Rightarrow> Route list" where
  "rangeRoutes rs order = List.map_filter rs order"

definition iterationOrder :: "(string \<rightharpoonup> Route) \<Rightarrow> string list \<Rightarrow> bool" where
  "iterationOrder rs order = (distinct order \<and> set order = dom rs)"

fun uriRange :: "Route list \<Rightarrow> string \<Rightarrow> string list \<Rightarrow> string" where
  "uriRange [] name params = []"
| "uriRange (r # rs) name params =
     (if Handler r = name then uriLoop (Path r) params 0 0 [] else uriRange rs name params)"

definition URI :: "('g HandlerFunc \<Rightarrow> string) \<Rightarrow> 'g Leego \<Rightarrow> string list \<Rightarrow> 'g HandlerFunc \<Rightarrow>
    string list \<Rightarrow> string" where
  "URI handlerName e order handler' params =
     (let name = handlerName handler'
      in uriRange (rangeRoutes (routes (router e)) order) name params)"

text \<open>
  The loop of lines 498 to 508 once more, as a recursion on the bytes of the path that are
  still to be read and the values that are left. It is used in the proofs only, and is shown
  below to compute what \<open>uriLoop\<close> computes.
\<close>

function substRuns :: "string \<Rightarrow> string list \<Rightarrow> string" where
  "substRuns [] ps = []"
| "substRuns (c # cs) ps =
     (if c = CHR '':'' \<and> ps \<noteq> []
      then hd ps @ (case dropWhile (\<lambda>x. x \<noteq> CHR ''/'') cs of
                      [] \<Rightarrow> []
                    | d # ds \<Rightarrow> d # substRuns ds (tl ps))
      else c # substRuns cs ps)"
  by pat_completeness auto
termination
proof (relation "measure (\<lambda>(cs, ps). length cs)")
  show "wf (measure (\<lambda>(cs, ps). length cs))" by simp
next
  fix c :: char and cs :: string and ps :: "string list" and d :: char and ds :: string
  assume "dropWhile (\<lambda>x. x \<noteq> CHR ''/'') cs = d # ds"
  then have "length (d # ds) \<le> length cs"
    by (metis length_dropWhile_le)
  then show "((ds, tl ps), (c # cs, ps)) \<in> measure (\<lambda>(cs, ps). length cs)"
    by simp
next
  fix c :: char and cs :: string and ps :: "string list"
  show "((cs, ps), (c # cs, ps)) \<in> measure (\<lambda>(cs, ps). length cs)"
    by simp
qed


text \<open>
  The substitution as the spec words it. A pattern is a sequence of segments separated by
  \<open>/\<close>; a segment of the form \<open>:name\<close> is a parameter segment; each parameter segment
  is replaced, in pattern order, by the next of the supplied values (while values are left),
  and the segments are put together again.
\<close>

fun splitSlash :: "string \<Rightarrow> string list" where
  "splitSlash [] = [] # []"
| "splitSlash (c # cs) =
     (if c = CHR ''/'' then [] # splitSlash cs
      else (case splitSlash cs of [] \<Rightarrow> [c] # [] | s # ss \<Rightarrow> (c # s) # ss))"

fun joinSlash :: "string list \<Rightarrow> string" where
  "joinSlash [] = []"
| "joinSlash [s] = s"
| "joinSlash (s # t # ss) = s @ CHR ''/'' # joinSlash (t # ss)"

definition isParamSegment :: "string \<Rightarrow> bool" where
  "isParamSegment s = (case s of [] \<Rightarrow> False | c # _ \<Rightarrow> c = CHR '':'')"

fun substSegments :: "string list \<Rightarrow> string list \<Rightarrow> string list" where
  "substSegments [] ps = []"
| "substSegments (s # ss) [] = s # ss"
| "substSegments (s # ss) (p # ps) =
     (if isParamSegment s then p # substSegments ss ps else s # substSegments ss (p # ps))"

definition substituteParams :: "string \<Rightarrow> string list \<Rightarrow> string" where
  "substituteParams path ps = joinSlash (substSegments (splitSlash path) ps)"

definition colonsStartSegments :: "string \<Rightarrow> bool" where
  "colonsStartSegments path = list_all (\<lambda>s. isParamSegment s \<or> CHR '':'' \<notin> set s) (splitSlash path)"

section \<open>Trailing-slash middleware\<close>

text \<open>
  \<^verbatim>\<open>TrailingSlashConfig\<close>, middleware/slash.go, lines 9 to 16. A \<^verbatim>\<open>Skipper\<close> is a
  function from the context to a boolean, and the field can be nil; the skipper is
  taken to answer without changing anything.
\<close>

record 'g TrailingSlashConfig =
  Skipper :: "('g World \<Rightarrow> bool) option"
  RedirectCode :: int

text \<open>
  Lines 38 to 40 and 85 to 87: a nil skipper is replaced by the default one, which is
  declared outside src/ and is a parameter.
\<close>

definition effectiveSkipper :: "('g World \<Rightarrow> bool) \<Rightarrow> 'g TrailingSlashConfig \<Rightarrow> 'g World \<Rightarrow> bool" where
  "effectiveSkipper defaultSkipper config =
     (case Skipper config of None \<Rightarrow> defaultSkipper | Some s \<Rightarrow> s)"

text \<open>
  \<^verbatim>\<open>AddTrailingSlashWithConfig\<close>, lines 36 to 71. The context method
  \<^verbatim>\<open>Redirect\<close> is declared outside src/ and is a parameter. The request of
  the context is an interface value: calling its \<^verbatim>\<open>URL()\<close> panics when it is nil. Line 52
  reads \<^verbatim>\<open>path[len(path)-1]\<close> whenever \<^verbatim>\<open>path != "/"\<close>; on the empty path the index is
  \<open>-1\<close> and the read panics.
\<close>

definition AddTrailingSlashWithConfig :: "('g World \<Rightarrow> bool) \<Rightarrow> (int \<Rightarrow> string \<Rightarrow> 'g HandlerFunc) \<Rightarrow>
    'g TrailingSlashConfig \<Rightarrow> 'g MiddlewareFunc" where
  "AddTrailingSlashWithConfig defaultSkipper Redirect config =
     (let skipper = effectiveSkipper defaultSkipper config
      in (\<lambda>next. ret (\<lambda>(c, g).
        if skipper (c, g) then next (c, g)
        else case request c of
          None \<Rightarrow> (Panicked, (c, g))
        | Some req \<Rightarrow>
            (let path = urlPath req;
                 qs = urlQueryString req
             in if path \<noteq> ''/'' then
                  (if length path = 0 then (Panicked, (c, g))
                   else if path ! (length path - 1) \<noteq> CHR ''/'' then
                     (let path' = path @ ''/'';
                          uri = (if qs \<noteq> [] then path' @ ''?'' @ qs else path')
                      in if RedirectCode config \<noteq> 0
                         then Redirect (RedirectCode config) uri (c, g)
                         else next (c\<lparr>request := Some (req\<lparr>reqURI := uri, urlPath := path'\<rparr>)\<rparr>, g))
                   else next (c, g))
                else next (c, g)))))"

text \<open>
  \<^verbatim>\<open>RemoveTrailingSlashWithConfig\<close>, lines 83 to 119. \<^verbatim>\<open>l := len(path) - 1\<close> is a
  signed integer, and line 100 tests \<^verbatim>\<open>l >= 0\<close> before it reads \<^verbatim>\<open>path[l]\<close>.
\<close>

definition RemoveTrailingSlashWithConfig :: "('g World \<Rightarrow> bool) \<Rightarrow> (int \<Rightarrow> string \<Rightarrow> 'g HandlerFunc) \<Rightarrow>
    'g TrailingSlashConfig \<Rightarrow> 'g MiddlewareFunc" where
  "RemoveTrailingSlashWithConfig defaultSkipper Redirect config =
     (let skipper = effectiveSkipper defaultSkipper config
      in (\<lambda>next. ret (\<lambda>(c, g).
        if skipper (c, g) then next (c, g)
        else case request c of
          None \<Rightarrow> (Panicked, (c, g))
        | Some req \<Rightarrow>
            (let path = urlPath req;
                 qs = urlQueryString req;
                 l = int (length path) - 1
             in if l \<ge> 0 \<and> path \<noteq> ''/'' \<and> path ! nat l = CHR ''/'' then
                  (let path' = take (nat l) path;
                       uri = (if qs \<noteq> [] then path' @ ''?'' @ qs else path')
                   in if RedirectCode config \<noteq> 0
                      then Redirect (RedirectCode config) uri (c, g)
                      else next (c\<lparr>request := Some (req\<lparr>reqURI := uri, urlPath := path'\<rparr>)\<rparr>, g))
                else next (c, g)))))"

text \<open>\<^verbatim>\<open>AddTrailingSlash\<close> (line 30) and \<^verbatim>\<open>RemoveTrailingSlash\<close> (line 77): the zero config.\<close>

definition AddTrailingSlash :: "('g World \<Rightarrow> bool) \<Rightarrow> (int \<Rightarrow> string \<Rightarrow> 'g HandlerFunc) \<Rightarrow> 'g MiddlewareFunc" where
  "AddTrailingSlash defaultSkipper Redirect =
     AddTrailingSlashWithConfig defaultSkipper Redirect \<lparr>Skipper = None, RedirectCode = 0\<rparr>"

definition RemoveTrailingSlash :: "('g World \<Rightarrow> bool) \<Rightarrow> (int \<Rightarrow> string \<Rightarrow> 'g HandlerFunc) \<Rightarrow> 'g MiddlewareFunc" where
  "RemoveTrailingSlash defaultSkipper Redirect =
     RemoveTrailingSlashWithConfig defaultSkipper Redirect \<lparr>Skipper = None, RedirectCode = 0\<rparr>"

text \<open>
  What a middleware applied to \<open>next\<close> yields when it is run at once: the handler
  the middleware returns, run in the state the wrapping left.
\<close>

definition wrapAndRun :: "'g MiddlewareFunc \<Rightarrow> 'g HandlerFunc \<Rightarrow> 'g HandlerFunc" where
  "wrapAndRun m next = andThen (m next) (\<lambda>h. h)"

section \<open>Test doubles\<close>

text \<open>
  A middleware and a handler that record their calls in a log (the state \<open>'g\<close> is the
  log), as a test would; and a middleware that counts how many times it is asked to wrap
  a handler (the state is the count).
\<close>

definition logMiddleware :: "string \<Rightarrow> (string list) MiddlewareFunc" where
  "logMiddleware name = (\<lambda>next. ret (\<lambda>(c, log).
     case next (c, log @ [name @ ''-enter'']) of
       (Returned err, (c', log')) \<Rightarrow> (Returned err, (c', log' @ [name @ ''-exit'']))
     | (Panicked, w) \<Rightarrow> (Panicked, w)))"

definition logHandler :: "string \<Rightarrow> (string list) HandlerFunc" where
  "logHandler name = (\<lambda>(c, log). (Returned None, (c, log @ [name])))"

definition countingMiddleware :: "nat MiddlewareFunc" where
  "countingMiddleware = (\<lambda>next (c, wraps). (Returned next, (c, Suc wraps)))"

definition okHandler :: "'g HandlerFunc" where
  "okHandler = (\<lambda>w. (Returned None, w))"

definition panicHandler :: "'g HandlerFunc" where
  "panicHandler = (\<lambda>w. (Panicked, w))"

text \<open>A middleware whose wrapping has no effect besides building the wrapper.\<close>

definition pureMiddleware :: "('g HandlerFunc \<Rightarrow> 'g HandlerFunc) \<Rightarrow> 'g MiddlewareFunc" where
  "pureMiddleware f = (\<lambda>next. ret (f next))"

text \<open>
  A router double that resolves every request to the logging handler \<open>H\<close>, and a
  framework instance with the premiddleware \<open>A, B\<close> and the global middleware
  \<open>C, D\<close>, an empty pool and result handlers that do nothing.
\<close>

definition findH :: "(string list) finder" where
  "findH = (\<lambda>r method path c. (logHandler ''H'', c))"

definition loggingLeego :: "(string list) Leego" where
  "loggingLeego =
     \<lparr>premiddleware = [logMiddleware ''A'', logMiddleware ''B''],
      middleware = [logMiddleware ''C'', logMiddleware ''D''],
      maxParam = 0, httpErrorHandler = (\<lambda>_. ret ()), httpSuccessHandler = ret (),
      pool = [], debug = False, router = \<lparr>handlers = Map.empty, routes = Map.empty\<rparr>\<rparr>"

text \<open>A framework instance with no middleware, no route and an empty pool.\<close>

definition countingLeego :: "nat Leego" where
  "countingLeego =
     \<lparr>premiddleware = [], middleware = [],
      maxParam = 0, httpErrorHandler = (\<lambda>_. ret ()), httpSuccessHandler = ret (),
      pool = [], debug = False, router = \<lparr>handlers = Map.empty, routes = Map.empty\<rparr>\<rparr>"

text \<open>A request, a response and a context with nothing in them, for the concrete runs below.\<close>

definition emptyRequest :: Request where
  "emptyRequest = \<lparr>reqMethod = ''GET'', urlPath = [], urlQueryString = [], reqURI = [],
     reqHeader = Map.empty\<rparr>"

definition emptyResponse :: Response where
  "emptyResponse = \<lparr>resHeader = Map.empty, Status = 0, Body = [], Committed = False\<rparr>"

definition emptyContext :: Context where
  "emptyContext = \<lparr>request = None, response = None, pvalues = [], data = Map.empty, lang = []\<rparr>"

text \<open>
  Contexts as \<^verbatim>\<open>Reset\<close> leaves them, for a GET and for a HEAD request with nothing written
  yet, and one whose response is already committed; framework instances with the debug
  flag set and with the default result handlers and one pooled context; router doubles
  that find nothing and that resolve to a panicking handler.
\<close>

definition getContext :: Context where
  "getContext = emptyContext\<lparr>request := Some emptyRequest, response := Some emptyResponse\<rparr>"





definition defaultLeego :: "nat Leego" where
  "defaultLeego = countingLeego\<lparr>httpErrorHandler := DefaultHTTPErrorHandler countingLeego,
     httpSuccessHandler := DefaultHTTPSuccessHandler countingLeego,
     pool := [NewContext countingLeego None None]\<rparr>"

definition findNotFound :: "nat finder" where
  "findNotFound = (\<lambda>r method path c. (NotFoundHandler, c))"

definition findPanic :: "nat finder" where
  "findPanic = (\<lambda>r method path c. (panicHandler, c))"

text \<open>
  The default instance with \<^verbatim>\<open>AddTrailingSlash\<close> as its premiddleware, and the context
  after the not-found error was written to it.
\<close>

definition slashLeego :: "nat Leego" where
  "slashLeego = defaultLeego\<lparr>premiddleware := [AddTrailingSlash (\<lambda>w. False) (\<lambda>code uri. okHandler)]\<rparr>"

definition servedContext :: Context where
  "servedContext = getContext\<lparr>response :=
     Some (emptyResponse\<lparr>Status := 404, Body := ''Not Found'', Committed := True\<rparr>)\<rparr>"

text \<open>
  A request for \<open>/a?x=1\<close>, a context holding a given request, a default skipper that
  never skips, the zero configuration, and a \<^verbatim>\<open>Redirect\<close> double.
\<close>

definition slashRequest :: Request where
  "slashRequest = emptyRequest\<lparr>urlPath := ''/a'', urlQueryString := ''x=1'', reqURI := ''/a?x=1''\<rparr>"

definition slashContext :: "Request \<Rightarrow> Context" where
  "slashContext req = emptyContext\<lparr>request := Some req, response := Some emptyResponse\<rparr>"

definition noSkipper :: "nat World \<Rightarrow> bool" where
  "noSkipper = (\<lambda>w. False)"

definition zeroConfig :: "nat TrailingSlashConfig" where
  "zeroConfig = \<lparr>Skipper = None, RedirectCode = 0\<rparr>"

definition redirectDouble :: "int \<Rightarrow> string \<Rightarrow> nat HandlerFunc" where
  "redirectDouble = (\<lambda>code uri. okHandler)"

text \<open>
  A double for \<^verbatim>\<open>handlerName\<close> that gives every handler the same name, a framework
  instance with the one route \<open>GET /posts/:id/comments/:cid\<close>, and one where the same
  handler is registered first at \<open>/a/:id\<close> and then at \<open>/b/:id\<close>.
\<close>

definition handlerNameDouble :: "nat HandlerFunc \<Rightarrow> string" where
  "handlerNameDouble = (\<lambda>h. ''main.show'')"

definition postsLeego :: "nat Leego" where
  "postsLeego = add handlerNameDouble countingLeego ''GET'' ''/posts/:id/comments/:cid'' okHandler
     (fixedSlice [])"

definition twoRoutesLeego :: "nat Leego" where
  "twoRoutesLeego =
     add handlerNameDouble
       (add handlerNameDouble countingLeego ''GET'' ''/a/:id'' okHandler (fixedSlice []))
       ''GET'' ''/b/:id'' okHandler (fixedSlice [])"

text \<open>
  A handler that refuses (returns an error) when the flag in the state is set and returns
  nil otherwise, and a next handler that can be told apart by the error it returns.
\<close>

definition guardHandler :: "bool HandlerFunc" where
  "guardHandler = (\<lambda>(c, denied).
     (Returned (if denied then Some (OtherError ''denied'') else None), (c, denied)))"

definition nextDouble :: "bool HandlerFunc" where
  "nextDouble = (\<lambda>w. (Returned (Some (OtherError ''from next'')), w))"

text \<open>A framework instance whose one route has a \<open>:\<close> inside a segment.\<close>

definition colonLeego :: "nat Leego" where
  "colonLeego = add handlerNameDouble countingLeego ''GET'' ''/a:b/c'' okHandler (fixedSlice [])"

text \<open>
  The slice \<^verbatim>\<open>ms\<close> of an application that calls \<^verbatim>\<open>e.Add(method, path, h, ms...)\<close>
  and later writes \<^verbatim>\<open>ms[0] = B\<close>. The state is the number of such writes made so far.
  Before the write the one element is a middleware that returns the handler it is given;
  \<^verbatim>\<open>B\<close> returns the not-found handler instead.
\<close>

definition writtenSlice :: "nat MiddlewareSlice" where
  "writtenSlice =
     \<lparr>sliceLen = 1,
      sliceAt = (\<lambda>writes i. if writes = 0 then pureMiddleware (\<lambda>h. h)
                             else pureMiddleware (\<lambda>h. NotFoundHandler))\<rparr>"

section \<open>The monad laws used below\<close>

lemma andThen_ret [simp]: "andThen (ret x) f = f x"
  by (simp add: andThen_def ret_def)

lemma andThen_ret_right [simp]: "andThen m ret = m"
  by (auto simp: andThen_def ret_def fun_eq_iff split: prod.splits outcome.splits)

lemma andThen_assoc: "andThen (andThen m f) k = andThen m (\<lambda>x. andThen (f x) k)"
  by (auto simp: andThen_def fun_eq_iff split: prod.splits outcome.splits)

section \<open>Composition of middleware\<close>

lemma chainFrom_append: "k \<le> length ms \<Longrightarrow> chainFrom (ms @ xs) k h = chainFrom ms k h"
proof (induction k arbitrary: h)
  case 0
  show ?case by simp
next
  case (Suc k)
  have "chainFrom (ms @ xs) k = chainFrom ms k"
    using Suc by (intro ext) simp
  with Suc.prems show ?case
    by (simp add: nth_append)
qed

lemma chain_Nil: "chain [] h = ret h"
  by (simp add: chain_def)

lemma chain_snoc: "chain (ms @ [m]) h = andThen (m h) (chain ms)"
proof -
  have "chainFrom (ms @ [m]) (length ms) = chainFrom ms (length ms)"
    by (intro ext) (simp add: chainFrom_append)
  moreover have "chain ms = chainFrom ms (length ms)"
    by (intro ext) (simp add: chain_def)
  ultimately show ?thesis
    by (simp add: chain_def)
qed

text \<open>The loop runs from the last middleware to the first: the first wraps last.\<close>

lemma chain_Cons: "chain (m # ms) h = andThen (chain ms h) m"
proof (induction ms arbitrary: h rule: rev_induct)
  case Nil
  have "chain [m] h = chain ([] @ [m]) h" by simp
  also have "\<dots> = andThen (m h) (chain [])" by (rule chain_snoc)
  also have "chain [] = ret" by (intro ext) (simp add: chain_Nil)
  finally show ?case by (simp add: chain_Nil)
next
  case (snoc x xs)
  have step: "chain (m # xs) = (\<lambda>h'. andThen (chain xs h') m)"
    using snoc.IH by (intro ext) simp
  have "chain (m # xs @ [x]) h = chain ((m # xs) @ [x]) h" by simp
  also have "\<dots> = andThen (x h) (chain (m # xs))" by (rule chain_snoc)
  also have "\<dots> = andThen (x h) (\<lambda>h'. andThen (chain xs h') m)"
    by (simp only: step)
  also have "\<dots> = andThen (andThen (x h) (chain xs)) m"
    by (simp add: andThen_assoc)
  also have "\<dots> = andThen (chain (xs @ [x]) h) m"
    by (simp add: chain_snoc)
  finally show ?case .
qed

lemma chain_pure: "chain (map pureMiddleware fs) h = ret (foldr (\<lambda>f k. f k) fs h)"
  by (induction fs) (simp_all add: chain_Nil chain_Cons pureMiddleware_def)

lemma ServeHTTP_runChain:
  "ServeHTTP routerFind e req res g =
     (let (c, rest) = acquire e req res
      in case andThen (runChain (premiddleware e) (routerClosure routerFind e)) (ResponseHandler e)
                (state c, g) of
           (Returned _, w) \<Rightarrow> (Returned (), e\<lparr>pool := c\<lparr>state := fst w\<rparr> # rest\<rparr>, w)
         | (Panicked, w) \<Rightarrow> (Panicked, e\<lparr>pool := rest\<rparr>, w))"
  by (simp add: ServeHTTP_def runChain_def andThen_assoc Let_def case_prod_beta)

lemma routerClosure_runChain:
  "routerClosure routerFind e (c\<lparr>request := Some req\<rparr>, g) =
     (let (h, c') = routerFind (router e) (reqMethod req) (urlPath req) (c\<lparr>request := Some req\<rparr>)
      in runChain (middleware e) h (c', g))"
  by (simp add: routerClosure_def)

lemma runChain_log_A_B:
  "runChain [logMiddleware ''A'', logMiddleware ''B''] (logHandler ''H'') (c, []) =
     (Returned None, (c, [''A-enter'', ''B-enter'', ''H'', ''B-exit'', ''A-exit'']))"
  by (simp add: runChain_def chain_def andThen_def ret_def logMiddleware_def logHandler_def)

lemma ServeHTTP_log:
  "snd (snd (snd (ServeHTTP findH loggingLeego emptyRequest emptyResponse []))) =
     [''A-enter'', ''B-enter'', ''C-enter'', ''D-enter'', ''H'',
      ''D-exit'', ''C-exit'', ''B-exit'', ''A-exit'']"
  by (simp add: ServeHTTP_def acquire_def poolGet_def NewContext_def Reset_def SetLang_def chain_def
      andThen_def ret_def routerClosure_def runChain_def logMiddleware_def logHandler_def
      ResponseHandler_def headerGet_def loggingLeego_def findH_def emptyRequest_def
      emptyResponse_def)

text \<open>
  C1. \<^verbatim>\<open>ServeHTTP\<close> runs the chain built from the premiddleware around the router
  closure, and the router closure runs the chain built from the global middleware around
  the handler the router found. Each chain is built from the last middleware of its list to
  the first: the chain of \<open>m # ms\<close> is \<open>m\<close> applied to the chain of \<open>ms\<close>, so the
  first-declared middleware is the outermost wrapper, and for wrappers without effects the
  chain of \<open>[f0, f1, ...]\<close> around \<open>h\<close> is \<open>f0 (f1 (... h))\<close>. With logging
  doubles, \<open>[A, B]\<close> around \<open>H\<close> logs A-enter, B-enter, H, B-exit, A-exit, and a
  request served with premiddleware \<open>[A, B]\<close> and global middleware \<open>[C, D]\<close> logs
  A, B, C, D entering in this order, then H, then D, C, B, A leaving.
\<close>

theorem ServeHTTP_chain_order:
  "chain [] h = ret h \<and>
   chain (m # ms) h = andThen (chain ms h) m \<and>
   chain (map pureMiddleware fs) h = ret (foldr (\<lambda>f k. f k) fs h) \<and>
   ServeHTTP routerFind e req res g =
     (let (c, rest) = acquire e req res
      in case andThen (runChain (premiddleware e) (routerClosure routerFind e)) (ResponseHandler e)
                (state c, g) of
           (Returned _, w) \<Rightarrow> (Returned (), e\<lparr>pool := c\<lparr>state := fst w\<rparr> # rest\<rparr>, w)
         | (Panicked, w) \<Rightarrow> (Panicked, e\<lparr>pool := rest\<rparr>, w)) \<and>
   routerClosure routerFind e (c\<lparr>request := Some req\<rparr>, g) =
     (let (h', c') = routerFind (router e) (reqMethod req) (urlPath req) (c\<lparr>request := Some req\<rparr>)
      in runChain (middleware e) h' (c', g)) \<and>
   runChain [logMiddleware ''A'', logMiddleware ''B''] (logHandler ''H'') (c, []) =
     (Returned None, (c, [''A-enter'', ''B-enter'', ''H'', ''B-exit'', ''A-exit''])) \<and>
   snd (snd (snd (ServeHTTP findH loggingLeego emptyRequest emptyResponse []))) =
     [''A-enter'', ''B-enter'', ''C-enter'', ''D-enter'', ''H'',
      ''D-exit'', ''C-exit'', ''B-exit'', ''A-exit'']"
  by (intro conjI chain_Nil chain_Cons chain_pure ServeHTTP_runChain routerClosure_runChain
      runChain_log_A_B ServeHTTP_log)

section \<open>Route-level middleware\<close>

lemma add_stored:
  "handlers (router (add hn e method path h s)) (method, path) = Some (runChainSlice s h)"
  by (simp add: add_def routerAdd_def Let_def)

lemma chainFromSlice_fixed: "chainFromSlice (fixedSlice ms) k h = chainFrom ms k h"
proof (induction k arbitrary: h)
  case 0
  show ?case by simp
next
  case (Suc k)
  have "chainFromSlice (fixedSlice ms) k = chainFrom ms k"
    by (intro ext) (simp add: Suc)
  then show ?case
    by (simp add: fixedSlice_def)
qed

lemma runChainSlice_fixed: "runChainSlice (fixedSlice ms) h = runChain ms h"
proof -
  have "sliceLen (fixedSlice ms) = length ms"
    by (simp add: fixedSlice_def)
  then show ?thesis
    by (simp add: runChainSlice_def runChain_def chain_def chainFromSlice_fixed)
qed

lemma runChain_Nil: "runChain [] h = h"
  by (simp add: runChain_def chain_Nil)

lemma runChain_Cons: "runChain (m # ms) h = andThen (chain ms h) (wrapAndRun m)"
  by (simp add: runChain_def chain_Cons andThen_assoc wrapAndRun_def [abs_def])

lemma runChain_pure: "runChain (map pureMiddleware fs) h = foldr (\<lambda>f k. f k) fs h"
  by (simp add: runChain_def chain_pure)

lemma chainFromSlice_pure:
  "k \<le> length fs \<Longrightarrow> (\<And>i. i < k \<Longrightarrow> sliceAt s g i = pureMiddleware (fs ! i)) \<Longrightarrow>
     chainFromSlice s k h (c, g) = (Returned (foldr (\<lambda>f k. f k) (take k fs) h), (c, g))"
proof (induction k arbitrary: h)
  case 0
  show ?case by (simp add: ret_def)
next
  case (Suc k)
  from Suc.prems have at: "sliceAt s g k = pureMiddleware (fs ! k)" and k: "k < length fs"
    by simp_all
  have "chainFromSlice s (Suc k) h (c, g) = chainFromSlice s k ((fs ! k) h) (c, g)"
    by (simp add: at pureMiddleware_def)
  also have "\<dots> = (Returned (foldr (\<lambda>f k. f k) (take k fs) ((fs ! k) h)), (c, g))"
    using Suc.prems by (intro Suc.IH) simp_all
  also have "foldr (\<lambda>f k. f k) (take k fs) ((fs ! k) h) = foldr (\<lambda>f k. f k) (take (Suc k) fs) h"
    using k by (simp add: take_Suc_conv_app_nth)
  finally show ?case .
qed

lemma runChainSlice_pure:
  assumes "sliceLen s = length fs" and "\<And>i. i < length fs \<Longrightarrow> sliceAt s g i = pureMiddleware (fs ! i)"
  shows "runChainSlice s h (c, g) = foldr (\<lambda>f k. f k) fs h (c, g)"
proof -
  have "chainFromSlice s (length fs) h (c, g) =
      (Returned (foldr (\<lambda>f k. f k) (take (length fs) fs) h), (c, g))"
    using assms(2) by (intro chainFromSlice_pure) simp_all
  then show ?thesis
    by (simp add: runChainSlice_def assms(1) andThen_def)
qed

text \<open>
  C4, as the claim states it, fails. A route is added with the counting middleware around
  a handler that does nothing. Folding at registration (with the count at 0) calls the
  middleware once and yields the bare handler, which leaves the count alone when it runs.
  The handler that \<^verbatim>\<open>add\<close> stores is not that one: it is the closure that folds and
  runs, and run with the count at 1 it calls the middleware again and leaves the count at 2.

  Nor is the middleware that the stored handler folds the one that was in the slice
  when the route was added. A route is added with the slice \<^verbatim>\<open>ms\<close>, whose one
  middleware returns the handler it is given: folded then, it yields the bare handler,
  which returns nil. After the write \<^verbatim>\<open>ms[0] = B\<close> the stored handler folds \<^verbatim>\<open>B\<close> and
  returns the not-found error.
\<close>

theorem add_folds_per_call_counterexample:
  "handlers (router (add handlerNameDouble countingLeego ''GET'' ''/x'' okHandler
      (fixedSlice [countingMiddleware]))) (''GET'', ''/x'') =
     Some (runChainSlice (fixedSlice [countingMiddleware]) okHandler) \<and>
   chainFromSlice (fixedSlice [countingMiddleware]) 1 okHandler (emptyContext, 0) =
     (Returned okHandler, (emptyContext, 1)) \<and>
   okHandler (emptyContext, 1::nat) = (Returned None, (emptyContext, 1)) \<and>
   runChainSlice (fixedSlice [countingMiddleware]) okHandler (emptyContext, 1) =
     (Returned None, (emptyContext, 2)) \<and>
   runChainSlice (fixedSlice [countingMiddleware]) okHandler \<noteq> okHandler \<and>
   handlers (router (add handlerNameDouble countingLeego ''GET'' ''/y'' okHandler writtenSlice))
       (''GET'', ''/y'') = Some (runChainSlice writtenSlice okHandler) \<and>
   chainFromSlice writtenSlice 1 okHandler (emptyContext, 0) = (Returned okHandler, (emptyContext, 0)) \<and>
   runChainSlice writtenSlice okHandler (emptyContext, 1) =
     (Returned (Some ErrNotFound), (emptyContext, 1))"
proof -
  let ?stored = "runChainSlice (fixedSlice [countingMiddleware]) okHandler"
  have 1: "?stored (emptyContext, 1) = (Returned None, (emptyContext, 2))"
    by (simp add: runChainSlice_def fixedSlice_def andThen_def ret_def countingMiddleware_def
        okHandler_def)
  have 2: "okHandler (emptyContext, 1::nat) = (Returned None, (emptyContext, 1))"
    by (simp add: okHandler_def)
  have 3: "?stored \<noteq> okHandler"
  proof
    assume "?stored = okHandler"
    then have "?stored (emptyContext, 1) = okHandler (emptyContext, 1)" by simp
    with 1 2 show False by simp
  qed
  have 4: "chainFromSlice (fixedSlice [countingMiddleware]) 1 okHandler (emptyContext, 0) =
      (Returned okHandler, (emptyContext, 1))"
    by (simp add: fixedSlice_def andThen_def ret_def countingMiddleware_def)
  have 5: "chainFromSlice writtenSlice 1 okHandler (emptyContext, 0) =
      (Returned okHandler, (emptyContext, 0))"
    by (simp add: writtenSlice_def pureMiddleware_def andThen_def ret_def)
  have 6: "runChainSlice writtenSlice okHandler (emptyContext, 1) =
      (Returned (Some ErrNotFound), (emptyContext, 1))"
    by (simp add: runChainSlice_def writtenSlice_def pureMiddleware_def andThen_def ret_def
        NotFoundHandler_def)
  show ?thesis
    by (intro conjI add_stored 4 2 1 3 5 6)
qed

text \<open>
  C4, amended. \<^verbatim>\<open>add\<close> folds nothing when the route is added. It stores in the router
  a handler that keeps the route's handler and the slice of middleware it was given, and
  that, each time it is called, folds the middleware then in the slice around the handler
  from the last to the first (so that the first is outermost) and runs the result. For a
  slice that is not written to, that is the per-call fold of the middleware given at
  registration; and where wrapping has no effect of its own, a call of the stored handler
  is a call of \<open>f0 (f1 (... handler))\<close> for the middleware \<open>f0, f1, ...\<close> in the
  slice at the time of the call.
\<close>

theorem add_stores_folding_closure:
  "handlers (router (add hn e method path h s)) (method, path) = Some (runChainSlice s h) \<and>
   runChainSlice (fixedSlice ms) h = runChain ms h \<and>
   runChain [] h = h \<and>
   runChain (m # ms) h = andThen (chain ms h) (wrapAndRun m) \<and>
   handlers (router (add hn e method path h (fixedSlice (map pureMiddleware fs)))) (method, path) =
     Some (foldr (\<lambda>f k. f k) fs h) \<and>
   (sliceLen s = length fs \<and> (\<forall>i < length fs. sliceAt s g i = pureMiddleware (fs ! i)) \<longrightarrow>
      runChainSlice s h (c, g) = foldr (\<lambda>f k. f k) fs h (c, g))"
proof -
  have "handlers (router (add hn e method path h (fixedSlice (map pureMiddleware fs)))) (method, path) =
      Some (foldr (\<lambda>f k. f k) fs h)"
    by (simp add: add_stored runChainSlice_fixed runChain_pure)
  moreover have "sliceLen s = length fs \<and> (\<forall>i < length fs. sliceAt s g i = pureMiddleware (fs ! i)) \<longrightarrow>
      runChainSlice s h (c, g) = foldr (\<lambda>f k. f k) fs h (c, g)"
    by (simp add: runChainSlice_pure)
  ultimately show ?thesis
    by (simp add: add_stored runChainSlice_fixed runChain_Nil runChain_Cons)
qed

theorem add_stores_folding_closure_witness:
  "runChainSlice writtenSlice okHandler (emptyContext, 0) = okHandler (emptyContext, 0) \<and>
   runChainSlice writtenSlice okHandler (emptyContext, 1) = NotFoundHandler (emptyContext, 1)"
proof -
  have s: "sliceLen writtenSlice = length [\<lambda>h :: nat HandlerFunc. h]"
      "sliceLen writtenSlice = length [\<lambda>h :: nat HandlerFunc. NotFoundHandler]"
    by (simp_all add: writtenSlice_def)
  have a0: "\<forall>i < length [\<lambda>h :: nat HandlerFunc. h].
      sliceAt writtenSlice 0 i = pureMiddleware ([\<lambda>h. h] ! i)"
    by (simp add: writtenSlice_def)
  have a1: "\<forall>i < length [\<lambda>h :: nat HandlerFunc. NotFoundHandler].
      sliceAt writtenSlice 1 i = pureMiddleware ([\<lambda>h. NotFoundHandler] ! i)"
    by (simp add: writtenSlice_def)
  have 0: "runChainSlice writtenSlice okHandler (emptyContext, 0) =
      foldr (\<lambda>f k. f k) [\<lambda>h. h] okHandler (emptyContext, 0)"
    using add_stores_folding_closure [where s = writtenSlice and fs = "[\<lambda>h. h]" and g = 0
        and h = okHandler and c = emptyContext] s(1) a0
    by blast
  have 1: "runChainSlice writtenSlice okHandler (emptyContext, 1) =
      foldr (\<lambda>f k. f k) [\<lambda>h. NotFoundHandler] okHandler (emptyContext, 1)"
    using add_stores_folding_closure [where s = writtenSlice and fs = "[\<lambda>h. NotFoundHandler]"
        and g = 1 and h = okHandler and c = emptyContext] s(2) a1
    by blast
  from 0 1 show ?thesis
    by simp
qed

section \<open>The default error handler\<close>












section \<open>New contexts\<close>

text \<open>
  C8. A context made by \<^verbatim>\<open>NewContext\<close> has the not-found handler as its handler, an
  empty data bag, and as many parameter values as \<^verbatim>\<open>maxParam\<close> says when it is made.
\<close>

theorem NewContext_initial_fields:
  "handler (NewContext e req res) = NotFoundHandler \<and>
   data (state (NewContext e req res)) = Map.empty \<and>
   pvalues (state (NewContext e req res)) = replicate (maxParam e) [] \<and>
   length (pvalues (state (NewContext e req res))) = maxParam e"
  by (simp add: NewContext_def)

section \<open>The pool\<close>

text \<open>
  C7, as the claim states it, fails: the context does not go back to the pool whatever
  the outcome. The pool holds one context. A request whose handler panics, and a request
  with an empty path served behind \<^verbatim>\<open>AddTrailingSlash\<close> as premiddleware (which panics
  on the empty path), both leave \<^verbatim>\<open>ServeHTTP\<close> by the panic, and the pool is then empty.
\<close>

theorem ServeHTTP_panic_loses_context_counterexample:
  "pool defaultLeego = [NewContext countingLeego None None] \<and>
   fst (ServeHTTP findPanic defaultLeego emptyRequest emptyResponse 0) = Panicked \<and>
   pool (fst (snd (ServeHTTP findPanic defaultLeego emptyRequest emptyResponse 0))) = [] \<and>
   pool slashLeego = [NewContext countingLeego None None] \<and>
   urlPath emptyRequest = [] \<and>
   fst (ServeHTTP findNotFound slashLeego emptyRequest emptyResponse 0) = Panicked \<and>
   pool (fst (snd (ServeHTTP findNotFound slashLeego emptyRequest emptyResponse 0))) = []"
  by (simp add: ServeHTTP_def acquire_def poolGet_def NewContext_def Reset_def SetLang_def chain_def
      andThen_def ret_def routerClosure_def runChain_def panicHandler_def slashLeego_def
      AddTrailingSlash_def AddTrailingSlashWithConfig_def effectiveSkipper_def
      ResponseHandler_def headerGet_def defaultLeego_def countingLeego_def findPanic_def emptyRequest_def
      emptyResponse_def)


text \<open>
  C7, amended. Whenever the chain returns, with a nil or a non-nil error, and the result
  handler returns, \<^verbatim>\<open>ServeHTTP\<close> puts the context it took out of the pool back into it,
  in the state the request left it in. When the chain or the result handler panics, the
  panic leaves \<^verbatim>\<open>ServeHTTP\<close> and the context is not put back.
\<close>

theorem ServeHTTP_pool_return:
  "(acquire e req res = (c, rest) \<and>
    runChain (premiddleware e) (routerClosure routerFind e) (state c, g) = (Returned err, w1) \<and>
    ResponseHandler e err w1 = (Returned u, w2) \<longrightarrow>
      ServeHTTP routerFind e req res g = (Returned (), e\<lparr>pool := c\<lparr>state := fst w2\<rparr> # rest\<rparr>, w2)) \<and>
   (acquire e req res = (c, rest) \<and>
    andThen (runChain (premiddleware e) (routerClosure routerFind e)) (ResponseHandler e) (state c, g) =
      (Panicked, w) \<longrightarrow>
      ServeHTTP routerFind e req res g = (Panicked, e\<lparr>pool := rest\<rparr>, w))"
  by (simp add: ServeHTTP_runChain andThen_def)

theorem ServeHTTP_pool_return_witness:
  "ServeHTTP findNotFound defaultLeego emptyRequest emptyResponse 0 =
     (Returned (),
      defaultLeego\<lparr>pool := [\<lparr>state = servedContext, handler = NotFoundHandler\<rparr>]\<rparr>,
      (servedContext, 0)) \<and>
   ServeHTTP findPanic defaultLeego emptyRequest emptyResponse 0 =
     (Panicked, defaultLeego\<lparr>pool := []\<rparr>, (getContext, 0))"
proof -
  let ?c = "\<lparr>state = getContext, handler = NotFoundHandler :: nat HandlerFunc\<rparr>"
  have acq: "acquire defaultLeego emptyRequest emptyResponse = (?c, [])"
    by (simp add: acquire_def poolGet_def defaultLeego_def Reset_def SetLang_def headerGet_def
        emptyRequest_def getContext_def emptyContext_def)
  have run: "runChain (premiddleware defaultLeego) (routerClosure findNotFound defaultLeego)
      (state ?c, 0) = (Returned (Some ErrNotFound), (getContext, 0))"
    by (simp add: defaultLeego_def countingLeego_def runChain_Nil routerClosure_def findNotFound_def
        NotFoundHandler_def getContext_def)
  have resp: "ResponseHandler defaultLeego (Some ErrNotFound) (getContext, 0) =
      (Returned (), (servedContext, 0))"
    by (simp add: ResponseHandler_def defaultLeego_def DefaultHTTPErrorHandler_def countingLeego_def
        ErrNotFound_def NewHTTPError_def StatusText_def getContext_def emptyContext_def
        emptyRequest_def emptyResponse_def HEAD_def String'_def andThen_def ret_def WriteHeader_def
        Write_def servedContext_def)
  have pan: "andThen (runChain (premiddleware defaultLeego) (routerClosure findPanic defaultLeego))
      (ResponseHandler defaultLeego) (state ?c, 0) = (Panicked, (getContext, 0))"
    by (simp add: defaultLeego_def countingLeego_def runChain_Nil routerClosure_def findPanic_def
        panicHandler_def getContext_def andThen_def)
  show ?thesis
    using ServeHTTP_pool_return [where e = defaultLeego and req = emptyRequest and res = emptyResponse and c = ?c
        and rest = "[]" and routerFind = findNotFound and g = 0 and err = "Some ErrNotFound"
        and ?w1.0 = "(getContext, 0)" and u = "()" and ?w2.0 = "(servedContext, 0)"]
      ServeHTTP_pool_return [where e = defaultLeego and req = emptyRequest and res = emptyResponse and c = ?c
        and rest = "[]" and routerFind = findPanic and g = 0 and w = "(getContext, 0)"]
      acq run resp pan
    by simp
qed

section \<open>Reverse URI generation\<close>

lemma skipName_takeWhile:
  "i \<le> length path \<Longrightarrow>
     skipName path i = i + length (takeWhile (\<lambda>x. x \<noteq> CHR ''/'') (drop i path))"
proof (induction path i rule: skipName.induct)
  case (1 path i)
  show ?case
  proof (cases "i < length path \<and> path ! i \<noteq> CHR ''/''")
    case True
    then have d: "drop i path = path ! i # drop (Suc i) path"
      by (simp add: Cons_nth_drop_Suc)
    from True 1 have "skipName path (Suc i) =
        Suc i + length (takeWhile (\<lambda>x. x \<noteq> CHR ''/'') (drop (Suc i) path))"
      by simp
    with True d show ?thesis
      by (subst skipName.simps) simp
  next
    case False
    show ?thesis
    proof (cases "i < length path")
      case True
      with False have sl: "path ! i = CHR ''/''" by simp
      with True have "takeWhile (\<lambda>x. x \<noteq> CHR ''/'') (drop i path) = []"
        by (simp add: Cons_nth_drop_Suc [symmetric])
      with sl show ?thesis
        by (subst skipName.simps) simp
    next
      case False
      then show ?thesis
        by (subst skipName.simps) simp
    qed
  qed
qed

lemma uriLoop_substRuns:
  "uriLoop path ps i n uri = uri @ substRuns (drop i path) (drop n ps)"
proof (induction path ps i n uri rule: uriLoop.induct)
  case (1 path ps i n uri)
  show ?case
  proof (cases "i < length path")
    case False
    then show ?thesis
      by (subst uriLoop.simps) simp
  next
    case lt: True
    then have d: "drop i path = path ! i # drop (Suc i) path"
      by (simp add: Cons_nth_drop_Suc)
    show ?thesis
    proof (cases "path ! i = CHR '':'' \<and> n < length ps")
      case False
      have "uriLoop path ps i n uri = uriLoop path ps (Suc i) n (uri @ [path ! i])"
        using lt False by (subst uriLoop.simps) auto
      also have "\<dots> = (uri @ [path ! i]) @ substRuns (drop (Suc i) path) (drop n ps)"
        using lt False by (intro "1.IH" [of "(i, n, uri)" i "(n, uri)" n uri]) auto
      also have "\<dots> = uri @ substRuns (drop i path) (drop n ps)"
        using False by (auto simp: d)
      finally show ?thesis .
    next
      case True
      define i1 where "i1 = skipName path i"
      define uri2 where "uri2 = (if i1 < length path then (uri @ ps ! n) @ [path ! i1] else uri @ ps ! n)"
      let ?P = "\<lambda>x. x \<noteq> CHR ''/''"
      have tw: "takeWhile ?P (drop i path) = path ! i # takeWhile ?P (drop (Suc i) path)"
        using True by (simp add: d)
      have i1: "i1 = Suc i + length (takeWhile ?P (drop (Suc i) path))"
        using lt tw by (simp add: i1_def skipName_takeWhile)
      have dw: "dropWhile ?P (drop (Suc i) path) = drop i1 path"
        by (simp add: dropWhile_eq_drop i1 add.commute)
      have p: "drop n ps = ps ! n # drop (Suc n) ps"
        using True by (simp add: Cons_nth_drop_Suc)
      have "uriLoop path ps i n uri = uriLoop path ps (Suc i1) (Suc n) uri2"
        using lt True by (subst uriLoop.simps) (simp add: i1_def uri2_def)
      also have "\<dots> = uri2 @ substRuns (drop (Suc i1) path) (drop (Suc n) ps)"
        using lt True
        by (intro "1.IH" [of "(i1, Suc n, uri @ ps ! n)" i1 "(Suc n, uri @ ps ! n)" "Suc n" "uri @ ps ! n"])
           (auto simp: i1_def uri2_def)
      also have "\<dots> = uri @ substRuns (drop i path) (drop n ps)"
      proof (cases "i1 < length path")
        case True
        then have "drop i1 path = path ! i1 # drop (Suc i1) path"
          by (simp add: Cons_nth_drop_Suc)
        with True \<open>path ! i = CHR '':'' \<and> n < length ps\<close> show ?thesis
          by (simp add: d p dw uri2_def)
      next
        case False
        then have "drop i1 path = []" "drop (Suc i1) path = []"
          by simp_all
        with False \<open>path ! i = CHR '':'' \<and> n < length ps\<close> show ?thesis
          by (simp add: d p dw uri2_def)
      qed
      finally show ?thesis .
    qed
  qed
qed

lemma uriRange_find:
  "uriRange rs name ps =
     (case List.find (\<lambda>r. Handler r = name) rs of None \<Rightarrow> [] | Some r \<Rightarrow> uriLoop (Path r) ps 0 0 [])"
  by (induction rs) simp_all

lemma splitSlash_nonempty [simp]: "splitSlash cs \<noteq> []"
  by (induction cs) (simp_all split: list.splits)

lemma joinSlash_splitSlash: "joinSlash (splitSlash cs) = cs"
proof (induction cs)
  case Nil
  show ?case by simp
next
  case (Cons c cs)
  obtain s ss where ss: "splitSlash cs = s # ss"
    by (cases "splitSlash cs") simp_all
  with Cons show ?case
    by (cases ss) auto
qed

lemma splitSlash_no_slash: "s \<in> set (splitSlash cs) \<Longrightarrow> CHR ''/'' \<notin> set s"
proof (induction cs arbitrary: s)
  case Nil
  then show ?case by simp
next
  case (Cons c cs)
  obtain t ts where ts: "splitSlash cs = t # ts"
    by (cases "splitSlash cs") simp_all
  with Cons show ?case
    by (auto split: if_splits)
qed

lemma substRuns_no_params: "substRuns cs [] = cs"
  by (induction cs) simp_all

lemma substRuns_static:
  "CHR '':'' \<notin> set s \<Longrightarrow> substRuns (s @ rest) ps = s @ substRuns rest ps"
  by (induction s) auto

lemma dropWhile_no_slash:
  "CHR ''/'' \<notin> set s \<Longrightarrow> dropWhile (\<lambda>x. x \<noteq> CHR ''/'') (s @ CHR ''/'' # rest) = CHR ''/'' # rest"
  by (induction s) auto

lemma dropWhile_no_slash_end:
  "CHR ''/'' \<notin> set s \<Longrightarrow> dropWhile (\<lambda>x. x \<noteq> CHR ''/'') s = []"
  by (induction s) auto

lemma substSegments_nonempty: "ss \<noteq> [] \<Longrightarrow> substSegments ss ps \<noteq> []"
  by (cases ss; cases ps) auto

lemma joinSlash_Cons: "ts \<noteq> [] \<Longrightarrow> joinSlash (s # ts) = s @ CHR ''/'' # joinSlash ts"
  by (cases ts) simp_all

lemma substRuns_segments:
  assumes "ss \<noteq> []"
    and "\<forall>s \<in> set ss. CHR ''/'' \<notin> set s"
    and "\<forall>s \<in> set ss. isParamSegment s \<or> CHR '':'' \<notin> set s"
  shows "substRuns (joinSlash ss) ps = joinSlash (substSegments ss ps)"
  using assms
proof (induction ss ps rule: substSegments.induct)
  case (1 ps)
  then show ?case by simp
next
  case (2 s ss)
  show ?case by (simp add: substRuns_no_params)
next
  case (3 s ss p ps)
  show ?case
  proof (cases "ss = []")
    case True
    show ?thesis
    proof (cases "isParamSegment s")
      case True
      then obtain s' where s: "s = CHR '':'' # s'"
        by (auto simp: isParamSegment_def split: list.splits)
      with 3 have "CHR ''/'' \<notin> set s'" by simp
      with s \<open>ss = []\<close> True show ?thesis
        by (simp add: dropWhile_no_slash_end)
    next
      case False
      with 3 have "CHR '':'' \<notin> set s" by simp
      then have "substRuns (s @ []) (p # ps) = s @ substRuns [] (p # ps)"
        by (rule substRuns_static)
      with False \<open>ss = []\<close> show ?thesis
        by simp
    qed
  next
    case ne: False
    then have j: "joinSlash (s # ss) = s @ CHR ''/'' # joinSlash ss"
      by (rule joinSlash_Cons)
    show ?thesis
    proof (cases "isParamSegment s")
      case True
      then obtain s' where s: "s = CHR '':'' # s'"
        by (auto simp: isParamSegment_def split: list.splits)
      with 3 have ns: "CHR ''/'' \<notin> set s'" by simp
      have IH: "substRuns (joinSlash ss) ps = joinSlash (substSegments ss ps)"
        using 3 True ne by simp
      have j': "joinSlash ((CHR '':'' # s') # ss) = (CHR '':'' # s') @ CHR ''/'' # joinSlash ss"
        using ne by (rule joinSlash_Cons)
      have "substRuns (joinSlash (s # ss)) (p # ps) = p @ CHR ''/'' # substRuns (joinSlash ss) ps"
        using ns unfolding s j' by (simp add: dropWhile_no_slash)
      also have "\<dots> = joinSlash (p # substSegments ss ps)"
        using ne by (simp add: IH joinSlash_Cons substSegments_nonempty)
      finally show ?thesis
        using True by simp
    next
      case False
      with 3 have nc: "CHR '':'' \<notin> set s" by simp
      have IH: "substRuns (joinSlash ss) (p # ps) = joinSlash (substSegments ss (p # ps))"
        using 3 False ne by simp
      have "substRuns (joinSlash (s # ss)) (p # ps) = s @ substRuns (CHR ''/'' # joinSlash ss) (p # ps)"
        using nc by (simp add: j substRuns_static)
      also have "\<dots> = s @ CHR ''/'' # joinSlash (substSegments ss (p # ps))"
        by (simp add: IH)
      also have "\<dots> = joinSlash (s # substSegments ss (p # ps))"
        using ne by (simp add: joinSlash_Cons substSegments_nonempty)
      finally show ?thesis
        using False by simp
    qed
  qed
qed

lemma substRuns_substituteParams:
  assumes "colonsStartSegments path"
  shows "substRuns path ps = substituteParams path ps"
proof -
  have "substRuns (joinSlash (splitSlash path)) ps = joinSlash (substSegments (splitSlash path) ps)"
    using assms
    by (intro substRuns_segments) (auto simp: colonsStartSegments_def list_all_iff splitSlash_no_slash)
  then show ?thesis
    by (simp add: joinSlash_splitSlash substituteParams_def)
qed

lemma find_unique:
  "\<exists>x \<in> set xs. P x \<Longrightarrow> \<forall>y \<in> set xs. P y \<longrightarrow> y = x \<Longrightarrow> List.find P xs = Some x"
  by (induction xs) auto

lemma set_rangeRoutes: "set (rangeRoutes rs order) = {r. \<exists>k \<in> set order. rs k = Some r}"
  by (induction order) (auto simp: rangeRoutes_def split: option.splits)

lemma URI_find:
  "URI hn e order h params =
     (case List.find (\<lambda>r. Handler r = hn h) (rangeRoutes (routes (router e)) order) of
        None \<Rightarrow> []
      | Some r \<Rightarrow> substRuns (Path r) params)"
  by (simp add: URI_def uriRange_find uriLoop_substRuns split: option.splits)

text \<open>
  C2, as the claim states it, fails: the route taken is not the first one registered. A
  handler is registered at \<open>/a/:id\<close> and then at \<open>/b/:id\<close>. Both orders of the two
  keys are iteration orders of the routes map. Visiting \<open>/b/:id\<close> first gives
  \<open>/b/7\<close>; visiting \<open>/a/:id\<close> first gives \<open>/a/7\<close>. Besides, the loop starts a
  name at every \<open>:\<close>, not only at one that begins a segment: the pattern \<open>/a:b/c\<close>
  has no parameter segment, and \<^verbatim>\<open>URI\<close> makes \<open>/a7/c\<close> of it.
\<close>

theorem URI_iteration_order_counterexample:
  "iterationOrder (routes (router twoRoutesLeego)) [''GET/b/:id'', ''GET/a/:id''] \<and>
   URI handlerNameDouble twoRoutesLeego [''GET/b/:id'', ''GET/a/:id''] okHandler [''7''] = ''/b/7'' \<and>
   iterationOrder (routes (router twoRoutesLeego)) [''GET/a/:id'', ''GET/b/:id''] \<and>
   URI handlerNameDouble twoRoutesLeego [''GET/a/:id'', ''GET/b/:id''] okHandler [''7''] = ''/a/7'' \<and>
   iterationOrder (routes (router colonLeego)) [''GET/a:b/c''] \<and>
   URI handlerNameDouble colonLeego [''GET/a:b/c''] okHandler [''7''] = ''/a7/c'' \<and>
   substituteParams ''/a:b/c'' [''7''] = ''/a:b/c''"
proof -
  have rs: "routes (router twoRoutesLeego) =
      [''GET/a/:id'' \<mapsto> \<lparr>Method = ''GET'', Path = ''/a/:id'', Handler = ''main.show''\<rparr>,
       ''GET/b/:id'' \<mapsto> \<lparr>Method = ''GET'', Path = ''/b/:id'', Handler = ''main.show''\<rparr>]"
    by (simp add: twoRoutesLeego_def add_def routerAdd_def countingLeego_def handlerNameDouble_def)
  have cs: "routes (router colonLeego) =
      [''GET/a:b/c'' \<mapsto> \<lparr>Method = ''GET'', Path = ''/a:b/c'', Handler = ''main.show''\<rparr>]"
    by (simp add: colonLeego_def add_def routerAdd_def countingLeego_def handlerNameDouble_def)
  have 1: "iterationOrder (routes (router twoRoutesLeego)) [''GET/b/:id'', ''GET/a/:id'']"
    unfolding rs iterationOrder_def by auto
  have 2: "iterationOrder (routes (router twoRoutesLeego)) [''GET/a/:id'', ''GET/b/:id'']"
    unfolding rs iterationOrder_def by auto
  have 3: "URI handlerNameDouble twoRoutesLeego [''GET/b/:id'', ''GET/a/:id''] okHandler [''7''] = ''/b/7''"
    unfolding URI_find rs by (simp add: rangeRoutes_def handlerNameDouble_def)
  have 4: "URI handlerNameDouble twoRoutesLeego [''GET/a/:id'', ''GET/b/:id''] okHandler [''7''] = ''/a/7''"
    unfolding URI_find rs by (simp add: rangeRoutes_def handlerNameDouble_def)
  have 5: "iterationOrder (routes (router colonLeego)) [''GET/a:b/c'']"
    unfolding cs iterationOrder_def by simp
  have 6: "URI handlerNameDouble colonLeego [''GET/a:b/c''] okHandler [''7''] = ''/a7/c''"
    unfolding URI_find cs by (simp add: rangeRoutes_def handlerNameDouble_def)
  have 7: "substituteParams ''/a:b/c'' [''7''] = ''/a:b/c''"
    by (simp add: substituteParams_def isParamSegment_def)
  from 1 2 3 4 5 6 7 show ?thesis by simp
qed

text \<open>
  C2, amended. \<^verbatim>\<open>URI\<close> takes the first route whose handler name matches in the order in
  which the routes map is visited (an order Go does not specify, and not the order of
  registration); in a pattern whose \<open>:\<close> all begin a segment it replaces each \<open>:name\<close>
  segment, in pattern order, by the next supplied value while values are left. It returns
  the empty string when no route has the handler's name. When exactly one route has the
  handler's name, every iteration order gives the substitution of that route's pattern: for
  the only route \<open>/posts/:id/comments/:cid\<close> and the values \<open>7\<close> and \<open>3\<close> the
  result is \<open>/posts/7/comments/3\<close>.
\<close>

theorem URI_substitutes_parameters:
  "(case List.find (\<lambda>r. Handler r = hn h) (rangeRoutes (routes (router e)) order) of
      None \<Rightarrow> URI hn e order h params = []
    | Some r \<Rightarrow> (colonsStartSegments (Path r) \<longrightarrow>
        URI hn e order h params = substituteParams (Path r) params)) \<and>
   ((\<forall>k r. routes (router e) k = Some r \<longrightarrow> Handler r \<noteq> hn h) \<longrightarrow> URI hn e order h params = []) \<and>
   (iterationOrder (routes (router e)) order \<and> routes (router e) k = Some r \<and> Handler r = hn h \<and>
    (\<forall>k' r'. routes (router e) k' = Some r' \<and> Handler r' = hn h \<longrightarrow> k' = k) \<and>
    colonsStartSegments (Path r) \<longrightarrow>
      URI hn e order h params = substituteParams (Path r) params)"
proof (intro conjI impI)
  show "case List.find (\<lambda>r. Handler r = hn h) (rangeRoutes (routes (router e)) order) of
      None \<Rightarrow> URI hn e order h params = []
    | Some r \<Rightarrow> (colonsStartSegments (Path r) \<longrightarrow>
        URI hn e order h params = substituteParams (Path r) params)"
    by (simp add: URI_find substRuns_substituteParams split: option.splits)
next
  assume "\<forall>k r. routes (router e) k = Some r \<longrightarrow> Handler r \<noteq> hn h"
  then have "List.find (\<lambda>r. Handler r = hn h) (rangeRoutes (routes (router e)) order) = None"
    by (auto simp: find_None_iff set_rangeRoutes)
  then show "URI hn e order h params = []"
    by (simp add: URI_find)
next
  assume a: "iterationOrder (routes (router e)) order \<and> routes (router e) k = Some r \<and>
    Handler r = hn h \<and>
    (\<forall>k' r'. routes (router e) k' = Some r' \<and> Handler r' = hn h \<longrightarrow> k' = k) \<and>
    colonsStartSegments (Path r)"
  then have "k \<in> set order"
    by (auto simp: iterationOrder_def)
  with a have "\<exists>x \<in> set (rangeRoutes (routes (router e)) order). Handler x = hn h"
    by (auto simp: set_rangeRoutes)
  moreover from a have "\<forall>y \<in> set (rangeRoutes (routes (router e)) order). Handler y = hn h \<longrightarrow> y = r"
    by (auto simp: set_rangeRoutes)
  ultimately have "List.find (\<lambda>r. Handler r = hn h) (rangeRoutes (routes (router e)) order) = Some r"
    by (rule find_unique)
  with a show "URI hn e order h params = substituteParams (Path r) params"
    by (simp add: URI_find substRuns_substituteParams)
qed


theorem URI_substitutes_parameters_witness:
  "URI handlerNameDouble postsLeego [''GET/posts/:id/comments/:cid''] okHandler [''7'', ''3''] =
     ''/posts/7/comments/3''"
proof -
  let ?k = "''GET/posts/:id/comments/:cid''"
  let ?r = "\<lparr>Method = ''GET'', Path = ''/posts/:id/comments/:cid'', Handler = ''main.show''\<rparr>"
  have rs: "routes (router postsLeego) = [?k \<mapsto> ?r]"
    by (simp add: postsLeego_def add_def routerAdd_def countingLeego_def handlerNameDouble_def)
  have 1: "iterationOrder (routes (router postsLeego)) [?k]"
    by (simp add: rs iterationOrder_def)
  have 2: "routes (router postsLeego) ?k = Some ?r"
    by (simp add: rs)
  have 3: "Handler ?r = handlerNameDouble okHandler"
    by (simp add: handlerNameDouble_def)
  have 4: "\<forall>k' r'. routes (router postsLeego) k' = Some r' \<and> Handler r' = handlerNameDouble okHandler \<longrightarrow> k' = ?k"
    by (simp add: rs)
  have 5: "colonsStartSegments (Path ?r)"
    by (simp add: colonsStartSegments_def isParamSegment_def)
  have 6: "substituteParams (Path ?r) [''7'', ''3''] = ''/posts/7/comments/3''"
    by (simp add: substituteParams_def isParamSegment_def)
  have "URI handlerNameDouble postsLeego [?k] okHandler [''7'', ''3''] =
      substituteParams (Path ?r) [''7'', ''3'']"
    using URI_substitutes_parameters [where e = postsLeego and order = "[?k]" and k = ?k and r = ?r and hn = handlerNameDouble
        and h = okHandler and params = "[''7'', ''3'']", THEN conjunct2, THEN conjunct2] 1 2 3 4 5
    by blast
  then show ?thesis
    using 6 by (rule trans)
qed

section \<open>Trailing slashes\<close>

text \<open>What the two handlers do, case by case, when the context has a request.\<close>

lemma AddTrailingSlash_run:
  assumes "request c = Some req" and "\<not> effectiveSkipper ds config (c, g)"
  shows "wrapAndRun (AddTrailingSlashWithConfig ds rd config) nxt (c, g) =
    (if urlPath req = ''/'' then nxt (c, g)
     else if urlPath req = [] then (Panicked, (c, g))
     else if last (urlPath req) = CHR ''/'' then nxt (c, g)
     else if RedirectCode config \<noteq> 0
       then rd (RedirectCode config)
              (urlPath req @ ''/'' @ (if urlQueryString req = [] then [] else ''?'' @ urlQueryString req)) (c, g)
       else nxt (c\<lparr>request := Some (req\<lparr>
              reqURI := urlPath req @ ''/'' @ (if urlQueryString req = [] then [] else ''?'' @ urlQueryString req),
              urlPath := urlPath req @ ''/''\<rparr>)\<rparr>, g))"
  using assms
  by (simp add: wrapAndRun_def AddTrailingSlashWithConfig_def Let_def last_conv_nth)

lemma AddTrailingSlash_skip:
  assumes "effectiveSkipper ds config (c, g)"
  shows "wrapAndRun (AddTrailingSlashWithConfig ds rd config) nxt (c, g) = nxt (c, g)"
  using assms by (simp add: wrapAndRun_def AddTrailingSlashWithConfig_def Let_def)

lemma RemoveTrailingSlash_skip:
  assumes "effectiveSkipper ds config (c, g)"
  shows "wrapAndRun (RemoveTrailingSlashWithConfig ds rd config) nxt (c, g) = nxt (c, g)"
  using assms by (simp add: wrapAndRun_def RemoveTrailingSlashWithConfig_def Let_def)

lemma RemoveTrailingSlash_run:
  assumes "request c = Some req" and "\<not> effectiveSkipper ds config (c, g)"
  shows "wrapAndRun (RemoveTrailingSlashWithConfig ds rd config) nxt (c, g) =
    (if urlPath req = [] \<or> urlPath req = ''/'' \<or> last (urlPath req) \<noteq> CHR ''/'' then nxt (c, g)
     else if RedirectCode config \<noteq> 0
       then rd (RedirectCode config)
              (butlast (urlPath req) @ (if urlQueryString req = [] then [] else ''?'' @ urlQueryString req)) (c, g)
       else nxt (c\<lparr>request := Some (req\<lparr>
              reqURI := butlast (urlPath req) @ (if urlQueryString req = [] then [] else ''?'' @ urlQueryString req),
              urlPath := butlast (urlPath req)\<rparr>)\<rparr>, g))"
proof (cases "urlPath req = []")
  case True
  with assms show ?thesis
    by (simp add: wrapAndRun_def RemoveTrailingSlashWithConfig_def Let_def)
next
  case False
  then have n: "nat (int (length (urlPath req)) - 1) = length (urlPath req) - 1"
    and p: "0 \<le> int (length (urlPath req)) - 1"
    by (cases "urlPath req"; simp)+
  from False assms show ?thesis
    by (simp add: wrapAndRun_def RemoveTrailingSlashWithConfig_def Let_def n last_conv_nth
        butlast_conv_take)
qed

text \<open>
  C5. In forward mode (no redirect code, the skipper answering false),
  \<^verbatim>\<open>AddTrailingSlash\<close> on the path \<open>/a\<close> with the query string \<open>x=1\<close> sets the URI
  to \<open>/a/?x=1\<close> and the path to \<open>/a/\<close>, and calls \<open>next\<close>; in general it appends
  one \<open>/\<close> to a path that does not end in one, and keeps the query string.
  \<^verbatim>\<open>RemoveTrailingSlash\<close> turns the path \<open>/a/\<close> into \<open>/a\<close>; in general it drops the
  final \<open>/\<close>. On the root path \<open>/\<close> both call \<open>next\<close> on the unchanged context,
  whatever the configuration.
\<close>

theorem trailing_slash_forward:
  "(request c = Some req \<and> \<not> effectiveSkipper ds config (c, g) \<and> RedirectCode config = 0 \<and>
    urlPath req = ''/a'' \<and> urlQueryString req = ''x=1'' \<longrightarrow>
      wrapAndRun (AddTrailingSlashWithConfig ds rd config) nxt (c, g) =
        nxt (c\<lparr>request := Some (req\<lparr>reqURI := ''/a/?x=1'', urlPath := ''/a/''\<rparr>)\<rparr>, g)) \<and>
   (request c = Some req \<and> \<not> effectiveSkipper ds config (c, g) \<and> RedirectCode config = 0 \<and>
    urlPath req \<noteq> [] \<and> urlPath req \<noteq> ''/'' \<and> last (urlPath req) \<noteq> CHR ''/'' \<longrightarrow>
      wrapAndRun (AddTrailingSlashWithConfig ds rd config) nxt (c, g) =
        nxt (c\<lparr>request := Some (req\<lparr>
          reqURI := urlPath req @ ''/'' @ (if urlQueryString req = [] then [] else ''?'' @ urlQueryString req),
          urlPath := urlPath req @ ''/''\<rparr>)\<rparr>, g)) \<and>
   (request c = Some req \<and> \<not> effectiveSkipper ds config (c, g) \<and> RedirectCode config = 0 \<and>
    urlPath req = ''/a/'' \<longrightarrow>
      wrapAndRun (RemoveTrailingSlashWithConfig ds rd config) nxt (c, g) =
        nxt (c\<lparr>request := Some (req\<lparr>
          reqURI := ''/a'' @ (if urlQueryString req = [] then [] else ''?'' @ urlQueryString req),
          urlPath := ''/a''\<rparr>)\<rparr>, g)) \<and>
   (request c = Some req \<and> \<not> effectiveSkipper ds config (c, g) \<and> RedirectCode config = 0 \<and>
    p \<noteq> [] \<and> urlPath req = p @ ''/'' \<longrightarrow>
      wrapAndRun (RemoveTrailingSlashWithConfig ds rd config) nxt (c, g) =
        nxt (c\<lparr>request := Some (req\<lparr>
          reqURI := p @ (if urlQueryString req = [] then [] else ''?'' @ urlQueryString req),
          urlPath := p\<rparr>)\<rparr>, g)) \<and>
   (request c = Some req \<and> urlPath req = ''/'' \<longrightarrow>
      wrapAndRun (AddTrailingSlashWithConfig ds rd config) nxt (c, g) = nxt (c, g) \<and>
      wrapAndRun (RemoveTrailingSlashWithConfig ds rd config) nxt (c, g) = nxt (c, g))"
proof -
  have root: "wrapAndRun (AddTrailingSlashWithConfig ds rd config) nxt (c, g) = nxt (c, g) \<and>
      wrapAndRun (RemoveTrailingSlashWithConfig ds rd config) nxt (c, g) = nxt (c, g)"
    if "request c = Some req" "urlPath req = ''/''"
    using that AddTrailingSlash_run [of c req ds config g rd nxt] RemoveTrailingSlash_run [of c req ds config g rd nxt]
      AddTrailingSlash_skip [of ds config c g rd nxt] RemoveTrailingSlash_skip [of ds config c g rd nxt]
    by (cases "effectiveSkipper ds config (c, g)") simp_all
  show ?thesis
    using root by (auto simp: AddTrailingSlash_run RemoveTrailingSlash_run)
qed

theorem trailing_slash_forward_witness:
  "wrapAndRun (AddTrailingSlashWithConfig noSkipper redirectDouble zeroConfig) okHandler
      (slashContext slashRequest, 0) =
     (Returned None,
      (slashContext (slashRequest\<lparr>reqURI := ''/a/?x=1'', urlPath := ''/a/''\<rparr>), 0)) \<and>
   wrapAndRun (RemoveTrailingSlashWithConfig noSkipper redirectDouble zeroConfig) okHandler
      (slashContext (emptyRequest\<lparr>urlPath := ''/a/''\<rparr>), 0) =
     (Returned None, (slashContext (emptyRequest\<lparr>urlPath := ''/a/'', reqURI := ''/a'', urlPath := ''/a''\<rparr>), 0)) \<and>
   wrapAndRun (AddTrailingSlashWithConfig noSkipper redirectDouble zeroConfig) okHandler
      (slashContext (emptyRequest\<lparr>urlPath := ''/''\<rparr>), 0) =
     (Returned None, (slashContext (emptyRequest\<lparr>urlPath := ''/''\<rparr>), 0)) \<and>
   wrapAndRun (RemoveTrailingSlashWithConfig noSkipper redirectDouble zeroConfig) okHandler
      (slashContext (emptyRequest\<lparr>urlPath := ''/''\<rparr>), 0) =
     (Returned None, (slashContext (emptyRequest\<lparr>urlPath := ''/''\<rparr>), 0))"
proof -
  have sk: "\<not> effectiveSkipper noSkipper zeroConfig w" for w
    by (simp add: effectiveSkipper_def noSkipper_def zeroConfig_def)
  have rc: "RedirectCode zeroConfig = 0"
    by (simp add: zeroConfig_def)
  have rq: "request (slashContext r) = Some r" for r
    by (simp add: slashContext_def)
  have ok: "okHandler w = (Returned None, w)" for w :: "nat World"
    by (simp add: okHandler_def)
  have up: "(slashContext r)\<lparr>request := Some r'\<rparr> = slashContext r'" for r r'
    by (simp add: slashContext_def)
  have sr: "urlPath slashRequest = ''/a''" "urlQueryString slashRequest = ''x=1''"
    "urlQueryString emptyRequest = []"
    by (simp_all add: slashRequest_def emptyRequest_def)
  show ?thesis
    using trailing_slash_forward [where c = "slashContext slashRequest" and req = slashRequest and ds = noSkipper
        and config = zeroConfig and g = 0 and rd = redirectDouble and nxt = okHandler and p = "''/a''"]
      trailing_slash_forward [where c = "slashContext (emptyRequest\<lparr>urlPath := ''/a/''\<rparr>)"
        and req = "emptyRequest\<lparr>urlPath := ''/a/''\<rparr>" and ds = noSkipper
        and config = zeroConfig and g = 0 and rd = redirectDouble and nxt = okHandler and p = "''/a''"]
      trailing_slash_forward [where c = "slashContext (emptyRequest\<lparr>urlPath := ''/''\<rparr>)"
        and req = "emptyRequest\<lparr>urlPath := ''/''\<rparr>" and ds = noSkipper
        and config = zeroConfig and g = 0 and rd = redirectDouble and nxt = okHandler and p = "''/a''"]
      sk rc rq sr
    by (simp add: ok up)
qed


text \<open>
  C9. The handler of \<^verbatim>\<open>RemoveTrailingSlashWithConfig\<close> does not panic on any path: on the
  empty path it calls \<open>next\<close> on the unchanged context, and on every path its result is a
  result of \<open>next\<close> or of \<^verbatim>\<open>Redirect\<close>. The handler of \<^verbatim>\<open>AddTrailingSlashWithConfig\<close>
  panics on the empty path (when the skipper does not skip), where it reads
  \<^verbatim>\<open>path[len(path)-1]\<close>; on a non-empty path its result is a result of \<open>next\<close> or of
  \<^verbatim>\<open>Redirect\<close>.
\<close>

theorem trailing_slash_totality:
  "(request c = Some req \<and> urlPath req = [] \<longrightarrow>
      wrapAndRun (RemoveTrailingSlashWithConfig ds rd config) nxt (c, g) = nxt (c, g)) \<and>
   (request c = Some req \<longrightarrow>
      (\<exists>w. wrapAndRun (RemoveTrailingSlashWithConfig ds rd config) nxt (c, g) = nxt w) \<or>
      (\<exists>uri. wrapAndRun (RemoveTrailingSlashWithConfig ds rd config) nxt (c, g) =
         rd (RedirectCode config) uri (c, g))) \<and>
   (request c = Some req \<and> \<not> effectiveSkipper ds config (c, g) \<and> urlPath req = [] \<longrightarrow>
      wrapAndRun (AddTrailingSlashWithConfig ds rd config) nxt (c, g) = (Panicked, (c, g))) \<and>
   (request c = Some req \<and> urlPath req \<noteq> [] \<longrightarrow>
      (\<exists>w. wrapAndRun (AddTrailingSlashWithConfig ds rd config) nxt (c, g) = nxt w) \<or>
      (\<exists>uri. wrapAndRun (AddTrailingSlashWithConfig ds rd config) nxt (c, g) =
         rd (RedirectCode config) uri (c, g)))"
proof (cases "effectiveSkipper ds config (c, g)")
  case True
  then show ?thesis
    by (auto simp: AddTrailingSlash_skip RemoveTrailingSlash_skip)
next
  case False
  then show ?thesis
    by (auto simp: AddTrailingSlash_run RemoveTrailingSlash_run)
qed

theorem trailing_slash_totality_witness:
  "wrapAndRun (RemoveTrailingSlashWithConfig noSkipper redirectDouble zeroConfig) okHandler
      (slashContext emptyRequest, 0) = (Returned None, (slashContext emptyRequest, 0)) \<and>
   wrapAndRun (AddTrailingSlashWithConfig noSkipper redirectDouble zeroConfig) okHandler
      (slashContext emptyRequest, 0) = (Panicked, (slashContext emptyRequest, 0)) \<and>
   ((\<exists>w. wrapAndRun (AddTrailingSlashWithConfig noSkipper redirectDouble zeroConfig) okHandler
      (slashContext slashRequest, 0) = okHandler w) \<or>
    (\<exists>uri. wrapAndRun (AddTrailingSlashWithConfig noSkipper redirectDouble zeroConfig) okHandler
      (slashContext slashRequest, 0) = redirectDouble (RedirectCode zeroConfig) uri (slashContext slashRequest, 0)))"
proof -
  have sk: "\<not> effectiveSkipper noSkipper zeroConfig w" for w
    by (simp add: effectiveSkipper_def noSkipper_def zeroConfig_def)
  have rq: "request (slashContext r) = Some r" for r
    by (simp add: slashContext_def)
  have ok: "okHandler w = (Returned None, w)" for w :: "nat World"
    by (simp add: okHandler_def)
  have sr: "urlPath slashRequest \<noteq> []" "urlPath emptyRequest = []"
    by (simp_all add: slashRequest_def emptyRequest_def)
  show ?thesis
    using trailing_slash_totality [where c = "slashContext emptyRequest" and req = emptyRequest and ds = noSkipper
        and config = zeroConfig and g = 0 and rd = redirectDouble and nxt = okHandler]
      trailing_slash_totality [where c = "slashContext slashRequest" and req = slashRequest and ds = noSkipper
        and config = zeroConfig and g = 0 and rd = redirectDouble and nxt = okHandler]
      sk rq sr
    by (simp add: ok)
qed

section \<open>WrapMiddleware\<close>

text \<open>
  C10. For every handler \<open>h\<close> and every \<open>next\<close>, \<open>WrapMiddleware h\<close> applied to
  \<open>next\<close> returns (without any effect) a handler that first runs \<open>h\<close> on the context:
  when \<open>h\<close> returns a non-nil error, that error is the result, in the state \<open>h\<close> left,
  whatever \<open>next\<close> is (it is not called); when \<open>h\<close> returns nil, the result is
  that of \<open>next\<close> on the same context, as \<open>h\<close> left it.
\<close>

theorem WrapMiddleware_h_then_next:
  "\<exists>hw. WrapMiddleware h next w0 = (Returned hw, w0) \<and>
        (\<forall>c err c'. h c = (Returned (Some err), c') \<longrightarrow>
             hw c = (Returned (Some err), c') \<and>
             (\<forall>next' w1. \<exists>hw'. WrapMiddleware h next' w1 = (Returned hw', w1) \<and> hw' c = hw c)) \<and>
        (\<forall>c c'. h c = (Returned None, c') \<longrightarrow> hw c = next c')"
  by (simp add: WrapMiddleware_def ret_def)

theorem WrapMiddleware_h_then_next_witness:
  "\<exists>hw. WrapMiddleware guardHandler nextDouble (emptyContext, True) = (Returned hw, (emptyContext, True)) \<and>
        hw (emptyContext, True) = (Returned (Some (OtherError ''denied'')), (emptyContext, True)) \<and>
        hw (emptyContext, False) = (Returned (Some (OtherError ''from next'')), (emptyContext, False))"
proof -
  have d: "guardHandler (emptyContext, True) = (Returned (Some (OtherError ''denied'')), (emptyContext, True))"
    and a: "guardHandler (emptyContext, False) = (Returned None, (emptyContext, False))"
    by (simp_all add: guardHandler_def)
  have n: "nextDouble (emptyContext, False) = (Returned (Some (OtherError ''from next'')), (emptyContext, False))"
    by (simp add: nextDouble_def)
  from WrapMiddleware_h_then_next [of guardHandler nextDouble "(emptyContext, True)"]
  obtain hw where hw: "WrapMiddleware guardHandler nextDouble (emptyContext, True) =
      (Returned hw, (emptyContext, True))"
    and err: "\<forall>c err c'. guardHandler c = (Returned (Some err), c') \<longrightarrow> hw c = (Returned (Some err), c')"
    and nil: "\<forall>c c'. guardHandler c = (Returned None, c') \<longrightarrow> hw c = nextDouble c'"
    by blast
  have e1: "hw (emptyContext, True) = (Returned (Some (OtherError ''denied'')), (emptyContext, True))"
    using err d by blast
  have e2: "hw (emptyContext, False) = nextDouble (emptyContext, False)"
    using nil a by blast
  have e3: "hw (emptyContext, False) =
      (Returned (Some (OtherError ''from next'')), (emptyContext, False))"
    using e2 n by (rule trans)
  show ?thesis
    using hw e1 e3 by blast
qed

end
